theory Spec2Isabelle
  imports Complex_Main "HOL-Library.Sublist"
begin

section \<open>JavaScript strings and numbers\<close>

text \<open>
  A JavaScript string is modelled as a \<^typ>\<open>string\<close>: a list of 8-bit characters, each
  read as the code unit of the same number (U+0000 to U+00FF). In that range the
  characters matched by \<^verbatim>\<open>\s\<close> and removed by \<^verbatim>\<open>trim()\<close> are TAB, LF, VT, FF, CR,
  SPACE and NO-BREAK SPACE.
\<close>

definition is_space :: "char \<Rightarrow> bool" where
  "is_space c =
     (c \<in> set [CHR 0x09, CHR 0x0A, CHR 0x0B, CHR 0x0C, CHR 0x0D, CHR 0x20, CHR 0xA0])"

text \<open>\<^verbatim>\<open>String.prototype.trim\<close>: white space is removed from both ends.\<close>

definition trim :: "string \<Rightarrow> string" where
  "trim s = rev (dropWhile is_space (rev (dropWhile is_space s)))"

text \<open>
  \<^verbatim>\<open>String.prototype.toLowerCase\<close>, one code unit at a time: A to Z and the Latin-1
  capitals U+00C0 to U+00DE (the multiplication sign U+00D7 apart) move up by 32.
\<close>

definition lower_char :: "char \<Rightarrow> char" where
  "lower_char c =
     (let n = (of_char c :: nat)
      in if (65 \<le> n \<and> n \<le> 90) \<or> (192 \<le> n \<and> n \<le> 222 \<and> n \<noteq> 215)
         then char_of (n + 32) else c)"

definition toLowerCase :: "string \<Rightarrow> string" where
  "toLowerCase s = map lower_char s"

text \<open>
  \<^verbatim>\<open>s.split(/\s+/)\<close>: the pieces of \<open>s\<close> between the maximal runs of white space. A run
  at the start or at the end leaves an empty piece there, and the empty string gives
  one empty piece. \<open>cur\<close> is the piece being read (reversed), \<open>in_ws\<close> says that the
  last character read was white space.
\<close>

fun split_ws_from :: "string \<Rightarrow> string \<Rightarrow> bool \<Rightarrow> string list" where
  "split_ws_from [] cur in_ws = [rev cur]"
| "split_ws_from (c # cs) cur in_ws =
     (if is_space c
      then (if in_ws then split_ws_from cs cur True
            else rev cur # split_ws_from cs [] True)
      else split_ws_from cs (c # cur) False)"

definition split_ws :: "string \<Rightarrow> string list" where
  "split_ws s = split_ws_from s [] False"

text \<open>\<^verbatim>\<open>s.split(sep)\<close> for a separator of one character.\<close>

fun split_on :: "char \<Rightarrow> string \<Rightarrow> string list" where
  "split_on sep [] = [[]]"
| "split_on sep (c # cs) =
     (if c = sep then [] # split_on sep cs
      else (case split_on sep cs of
              [] \<Rightarrow> [[c]]
            | piece # pieces \<Rightarrow> (c # piece) # pieces))"

text \<open>\<^verbatim>\<open>xs.join(sep)\<close>.\<close>

fun join :: "string \<Rightarrow> string list \<Rightarrow> string" where
  "join sep [] = []"
| "join sep [x] = x"
| "join sep (x # y # ys) = x @ sep @ join sep (y # ys)"

text \<open>A natural number in a template literal: its decimal digits.\<close>

fun show_nat :: "nat \<Rightarrow> string" where
  "show_nat n =
     (if n < 10 then [char_of (48 + n)]
      else show_nat (n div 10) @ [char_of (48 + n mod 10)])"

declare show_nat.simps [simp del]

text \<open>
  The numbers the options hold are results of \<^verbatim>\<open>parseInt\<close>: an integer or \<^verbatim>\<open>NaN\<close>.
\<close>

datatype jsnum = NaN | Num int

text \<open>\<^verbatim>\<open>x || d\<close> on a number: \<^verbatim>\<open>NaN\<close> and 0 are falsy.\<close>

definition or_default :: "jsnum \<Rightarrow> int \<Rightarrow> int" where
  "or_default x d = (case x of NaN \<Rightarrow> d | Num n \<Rightarrow> if n = 0 then d else n)"

text \<open>
  \<^verbatim>\<open>parseInt(s)\<close> with no radix: leading white space is skipped, a sign is read, a
  prefix \<^verbatim>\<open>0x\<close> or \<^verbatim>\<open>0X\<close> selects radix 16 (radix 10 otherwise), and the longest run of
  digits of that radix is the value; no digit gives \<^verbatim>\<open>NaN\<close>. (The value is exact here;
  JavaScript rounds magnitudes above \<open>2^53\<close> to a double.)
\<close>

definition digit_val :: "char \<Rightarrow> nat option" where
  "digit_val c =
     (let n = (of_char c :: nat)
      in if 48 \<le> n \<and> n \<le> 57 then Some (n - 48)
         else if 97 \<le> n \<and> n \<le> 122 then Some (n - 87)
         else if 65 \<le> n \<and> n \<le> 90 then Some (n - 55)
         else None)"

definition is_digit :: "nat \<Rightarrow> char \<Rightarrow> bool" where
  "is_digit radix c = (case digit_val c of None \<Rightarrow> False | Some d \<Rightarrow> d < radix)"

definition digits_value :: "nat \<Rightarrow> string \<Rightarrow> nat" where
  "digits_value radix ds = foldl (\<lambda>acc c. acc * radix + the (digit_val c)) 0 ds"

definition parseInt :: "string \<Rightarrow> jsnum" where
  "parseInt s =
     (let s1 = dropWhile is_space s;
          negative = (s1 \<noteq> [] \<and> hd s1 = CHR ''-'');
          s2 = (if s1 \<noteq> [] \<and> (hd s1 = CHR ''+'' \<or> hd s1 = CHR ''-'') then tl s1 else s1);
          hex = (take 2 s2 = ''0x'' \<or> take 2 s2 = ''0X'');
          radix = (if hex then 16 else 10);
          s3 = (if hex then drop 2 s2 else s2);
          ds = takeWhile (is_digit radix) s3
      in if ds = [] then NaN
         else Num ((if negative then - 1 else 1) * int (digits_value radix ds)))"

section \<open>Word count (utils/textProcessing.js)\<close>

text \<open>The argument is \<open>None\<close> for \<^verbatim>\<open>undefined\<close> or \<^verbatim>\<open>null\<close>; these and \<^verbatim>\<open>""\<close> are falsy.\<close>

definition countUniqueWords :: "string option \<Rightarrow> nat" where
  "countUniqueWords text_arg =
     (case text_arg of
        None \<Rightarrow> 0
      | Some t \<Rightarrow>
          if t = [] then 0
          else (let ws = map toLowerCase (split_ws (trim t))
                in length (remdups ws)))"

section \<open>File validation\<close>

text \<open>A browser \<^verbatim>\<open>File\<close>: its name, its size in bytes and its MIME type.\<close>

record js_file =
  file_name :: string
  file_size :: nat
  file_type :: string

text \<open>\<^verbatim>\<open>'.' + file.name.split('.').pop().toLowerCase()\<close>\<close>

definition fileExtension :: "string \<Rightarrow> string" where
  "fileExtension name = CHR ''.'' # toLowerCase (last (split_on CHR ''.'' name))"

subsection \<open>The upload component (components/common/FileUpload.jsx)\<close>

definition type_accepts :: "js_file \<Rightarrow> string \<Rightarrow> bool" where
  "type_accepts f ty =
     (if CHR ''*'' \<in> set ty
      then (let mimePrefix = hd (split_on CHR ''*'' ty) in prefix mimePrefix (file_type f))
      else ty = fileExtension (file_name f) \<or> ty = file_type f)"

text \<open>
  The body of the \<^verbatim>\<open>forEach\<close>: a file goes to \<open>validFiles\<close> or one message goes to
  \<open>invalidFiles\<close>; each \<^verbatim>\<open>return\<close> ends the work on that file.
\<close>

definition validate_one ::
  "string \<Rightarrow> nat \<Rightarrow> js_file list \<times> string list \<Rightarrow> js_file \<Rightarrow> js_file list \<times> string list" where
  "validate_one accept maxSize acc f =
     (let (validFiles, invalidFiles) = acc
      in if file_size f > maxSize * 1024 * 1024
         then (validFiles,
               invalidFiles @ [file_name f @ '' (exceeds '' @ show_nat maxSize @ ''MB size limit)''])
         else (let acceptedTypes = split_on CHR '','' accept
               in if \<not> list_ex (type_accepts f) acceptedTypes
                  then (validFiles, invalidFiles @ [file_name f @ '' (invalid file type)''])
                  else (validFiles @ [f], invalidFiles)))"

text \<open>
  \<open>validateFiles\<close> returns the component's new error text and either \<open>None\<close> (the
  source's \<^verbatim>\<open>false\<close>) or the valid files.
\<close>

definition validateFiles :: "string \<Rightarrow> nat \<Rightarrow> js_file list \<Rightarrow> string \<times> js_file list option" where
  "validateFiles accept maxSize files =
     (let (validFiles, invalidFiles) = foldl (validate_one accept maxSize) ([], []) files
      in if length invalidFiles > 0
         then (''Cannot upload: '' @ join '', '' invalidFiles, None)
         else ('''', Some validFiles))"

subsection \<open>The validation helper and its constants\<close>

definition ALLOWED_EXTENSIONS :: "string list" where
  "ALLOWED_EXTENSIONS = [''.txt'', ''.pdf'', ''.docx'', ''.doc'']"

definition MAX_SIZE :: nat where
  "MAX_SIZE = 10 * 1024 * 1024"

text \<open>\<open>validateFile\<close> returns \<open>(isValid, errors)\<close>; \<open>None\<close> is a missing file.\<close>

definition validateFile :: "js_file option \<Rightarrow> bool \<times> string list" where
  "validateFile file_arg =
     (case file_arg of
        None \<Rightarrow> (False, [''No file selected''])
      | Some f \<Rightarrow>
          (let errors1 =
                 (if file_size f > MAX_SIZE
                  then [''File size exceeds '' @ show_nat (MAX_SIZE div (1024 * 1024)) @ ''MB limit'']
                  else []);
               extension = fileExtension (file_name f);
               errors2 =
                 (if extension \<notin> set ALLOWED_EXTENSIONS
                  then errors1 @ [''File type not allowed. Allowed types: '' @ join '', '' ALLOWED_EXTENSIONS]
                  else errors1)
           in (length errors2 = 0, errors2)))"

section \<open>The transport and the service (services/summarizationService.js)\<close>

text \<open>
  The HTTP client is outside the program: every request is answered by a response
  body (\<open>Inr\<close>) or fails (\<open>Inl\<close>) with no response at all or with a response of
  non-2xx status and its body (\<open>[]\<close> for an empty one).
\<close>

datatype transport_error = NetworkError | HttpError nat string

text \<open>What the service throws: \<^verbatim>\<open>error.response?.data || error\<close>.\<close>

datatype thrown = ThrownData string | ThrownError transport_error

definition rethrow :: "transport_error \<Rightarrow> thrown" where
  "rethrow e =
     (case e of
        NetworkError \<Rightarrow> ThrownError e
      | HttpError code body \<Rightarrow> if body \<noteq> [] then ThrownData body else ThrownError e)"

record summarize_response =
  resp_summary :: string
  resp_document_id :: string

record upload_response =
  upload_document_id :: string

record status_response =
  status :: string
  status_summary :: "string option"

record feedback_record =
  fb_document_id :: string
  fb_summary_id :: string
  fb_rating :: int
  fb_feedback_text :: string
  fb_original_summary :: "string option"

text \<open>
  The options object a handler passes to the service:
  \<^verbatim>\<open>{...summaryOptions, model: selectedModel, ...advancedOptions}\<close>.
\<close>

record summary_options =
  maxLength :: jsnum
  minLength :: jsnum

record advanced_options =
  temperature :: rat
  format :: string
  includeKeywords :: bool
  language :: string

record request_options =
  opt_summary :: summary_options
  opt_model :: string
  opt_advanced :: advanced_options

text \<open>
  The requests and timers a handler issues, in order: the four kinds of request of
  the service, the awaited delay of the polling loop and the timer armed after a
  feedback was sent (both in milliseconds).
\<close>

datatype event =
    PostSummarize string int int
  | PostDocuments js_file int int
  | GetDocument string
  | PostFeedback feedback_record
  | Delay nat
  | SetTimeout nat

text \<open>
  Each function of the service takes the transport's answer to its one request and
  returns the request with what the caller gets: the response body, or the thrown
  value.
\<close>

definition service_summarizeText ::
  "string \<Rightarrow> request_options \<Rightarrow> transport_error + summarize_response
     \<Rightarrow> event \<times> (thrown + summarize_response)" where
  "service_summarizeText txt options answer =
     (PostSummarize txt
        (or_default (maxLength (opt_summary options)) 150)
        (or_default (minLength (opt_summary options)) 40),
      case answer of Inr data \<Rightarrow> Inr data | Inl e \<Rightarrow> Inl (rethrow e))"

definition service_uploadDocument ::
  "js_file \<Rightarrow> request_options \<Rightarrow> transport_error + upload_response
     \<Rightarrow> event \<times> (thrown + upload_response)" where
  "service_uploadDocument f options answer =
     (PostDocuments f
        (or_default (maxLength (opt_summary options)) 150)
        (or_default (minLength (opt_summary options)) 40),
      case answer of Inr data \<Rightarrow> Inr data | Inl e \<Rightarrow> Inl (rethrow e))"

definition service_getSummary ::
  "string \<Rightarrow> transport_error + status_response \<Rightarrow> event \<times> (thrown + status_response)" where
  "service_getSummary docId answer =
     (GetDocument docId,
      case answer of Inr data \<Rightarrow> Inr data | Inl e \<Rightarrow> Inl (rethrow e))"

definition service_submitFeedback ::
  "feedback_record \<Rightarrow> transport_error + unit \<Rightarrow> event \<times> (thrown + unit)" where
  "service_submitFeedback fb answer =
     (PostFeedback fb,
      case answer of Inr data \<Rightarrow> Inr data | Inl e \<Rightarrow> Inl (rethrow e))"

section \<open>The summarization tool (TextSummarizationTool.js)\<close>

text \<open>The component's state: one field for each \<^verbatim>\<open>useState\<close>.\<close>

record tool_state =
  text_value :: string
  summary :: "string option"
  loading :: bool
  file_value :: "js_file option"
  feedback :: string
  rating :: int
  documentId :: string
  error :: string
  selectedModel :: string
  summaryOptions :: summary_options
  advancedOptions :: advanced_options
  processingStatus :: string

definition initial_state :: tool_state where
  "initial_state =
     \<lparr> text_value = '''', summary = Some '''', loading = False, file_value = None,
       feedback = '''', rating = 0, documentId = '''', error = '''',
       selectedModel = ''gpt-3.5-turbo'',
       summaryOptions = \<lparr> maxLength = Num 150, minLength = Num 40 \<rparr>,
       advancedOptions = \<lparr> temperature = 7 / 10, format = ''paragraph'',
                           includeKeywords = False, language = ''auto'' \<rparr>,
       processingStatus = '''' \<rparr>"

definition handleTextChange :: "tool_state \<Rightarrow> string \<Rightarrow> tool_state" where
  "handleTextChange st v = st\<lparr>text_value := v\<rparr>"

definition handleFileUpload :: "tool_state \<Rightarrow> js_file option \<Rightarrow> tool_state" where
  "handleFileUpload st selectedFile =
     (let st1 = st\<lparr>file_value := selectedFile\<rparr>
      in if documentId st \<noteq> [] then st1\<lparr>documentId := '''', summary := Some ''''\<rparr> else st1)"

text \<open>
  The handler is bound to the two range inputs, named \<^verbatim>\<open>maxLength\<close> and \<^verbatim>\<open>minLength\<close>;
  \<open>v\<close> is the input's value, a string.
\<close>

datatype option_name = MaxLength | MinLength

definition handleOptionsChange :: "tool_state \<Rightarrow> option_name \<Rightarrow> string \<Rightarrow> tool_state" where
  "handleOptionsChange st name v =
     (case name of
        MaxLength \<Rightarrow> st\<lparr>summaryOptions := (summaryOptions st)\<lparr>maxLength := parseInt v\<rparr>\<rparr>
      | MinLength \<Rightarrow> st\<lparr>summaryOptions := (summaryOptions st)\<lparr>minLength := parseInt v\<rparr>\<rparr>)"

definition merged_options :: "tool_state \<Rightarrow> request_options" where
  "merged_options st =
     \<lparr> opt_summary = summaryOptions st, opt_model = selectedModel st,
       opt_advanced = advancedOptions st \<rparr>"

subsection \<open>Direct text\<close>

definition summarizeText ::
  "tool_state \<Rightarrow> transport_error + summarize_response \<Rightarrow> tool_state \<times> event list" where
  "summarizeText st answer =
     (if trim (text_value st) = []
      then (st\<lparr>error := ''Please enter some text to summarize''\<rparr>, [])
      else
        (let st1 = st\<lparr>loading := True, error := '''',
                       processingStatus := ''Generating summary...''\<rparr>;
             (request, outcome) = service_summarizeText (text_value st) (merged_options st) answer
         in case outcome of
              Inr result \<Rightarrow>
                (st1\<lparr>summary := Some (resp_summary result),
                     documentId := resp_document_id result,
                     loading := False\<rparr>, [request])
            | Inl err \<Rightarrow>
                (st1\<lparr>error := ''An error occurred during summarization. Please try again.'',
                     loading := False\<rparr>, [request])))"

subsection \<open>File upload and polling\<close>

definition maxAttempts :: nat where
  "maxAttempts = 30"

text \<open>
  The \<^verbatim>\<open>while\<close> loop of \<open>summarizeFile\<close>. \<open>answers k\<close> is the transport's answer to
  the status query of the iteration that starts with \<open>attempts = k\<close>. The loop
  carries the component state, the events issued so far, \<open>summaryReady\<close> and
  \<open>attempts\<close>.
\<close>

function poll_loop ::
  "(nat \<Rightarrow> transport_error + status_response) \<Rightarrow> string \<Rightarrow> tool_state \<Rightarrow> event list
     \<Rightarrow> bool \<Rightarrow> nat \<Rightarrow> tool_state \<times> event list \<times> bool \<times> nat" where
  "poll_loop answers docId st evs summaryReady attempts =
     (if \<not> summaryReady \<and> attempts < maxAttempts
      then
        (let evs1 = evs @ [Delay 2000];
             (request, outcome) = service_getSummary docId (answers attempts);
             evs2 = evs1 @ [request]
         in case outcome of
              Inr summaryResponse \<Rightarrow>
                if status summaryResponse = ''completed''
                then poll_loop answers docId
                       (st\<lparr>summary := status_summary summaryResponse\<rparr>) evs2 True (attempts + 1)
                else poll_loop answers docId
                       (st\<lparr>processingStatus :=
                            ''Processing document... ('' @ show_nat (attempts + 1) @ ''/''
                              @ show_nat maxAttempts @ '')''\<rparr>) evs2 summaryReady (attempts + 1)
            | Inl err \<Rightarrow> poll_loop answers docId st evs2 summaryReady (attempts + 1))
      else (st, evs, summaryReady, attempts))"
  by pat_completeness auto
termination
  by (relation "measure (\<lambda>(answers, docId, st, evs, summaryReady, attempts). maxAttempts - attempts)")
     (auto simp: service_getSummary_def)

declare poll_loop.simps [simp del]

definition summarizeFile ::
  "tool_state \<Rightarrow> transport_error + upload_response
     \<Rightarrow> (nat \<Rightarrow> transport_error + status_response) \<Rightarrow> tool_state \<times> event list" where
  "summarizeFile st upload_answer answers =
     (case file_value st of
        None \<Rightarrow> (st\<lparr>error := ''Please select a file to upload''\<rparr>, [])
      | Some f \<Rightarrow>
          (let st1 = st\<lparr>loading := True, error := '''',
                         processingStatus := ''Uploading document...''\<rparr>;
               (request, outcome) = service_uploadDocument f (merged_options st) upload_answer
           in case outcome of
                Inl err \<Rightarrow>
                  (st1\<lparr>error := ''Error uploading or processing document. Please try again.'',
                       loading := False\<rparr>, [request])
              | Inr uploadResult \<Rightarrow>
                  (let docId = upload_document_id uploadResult;
                       st2 = st1\<lparr>documentId := docId,
                                 processingStatus := ''Processing document...''\<rparr>;
                       (st3, evs, summaryReady, attempts) =
                          poll_loop answers docId st2 [request] False 0;
                       st4 = (if \<not> summaryReady
                              then st3\<lparr>error := ''Summary generation is taking longer than expected. Please check back later.''\<rparr>
                              else st3)
                   in (st4\<lparr>loading := False\<rparr>, evs))))"

subsection \<open>Feedback\<close>

definition submitFeedback ::
  "tool_state \<Rightarrow> transport_error + unit \<Rightarrow> tool_state \<times> event list" where
  "submitFeedback st answer =
     (if rating st = 0
      then (st\<lparr>error := ''Please provide a rating before submitting feedback''\<rparr>, [])
      else
        (let st1 = st\<lparr>loading := True, error := '''',
                       processingStatus := ''Submitting feedback...''\<rparr>;
             (request, outcome) =
                service_submitFeedback
                  \<lparr> fb_document_id = documentId st, fb_summary_id = documentId st,
                    fb_rating = rating st, fb_feedback_text = feedback st,
                    fb_original_summary = summary st \<rparr> answer
         in case outcome of
              Inr ack \<Rightarrow>
                (st1\<lparr>processingStatus := ''Feedback submitted successfully!'',
                     feedback := '''', rating := 0, loading := False\<rparr>,
                 [request, SetTimeout 3000])
            | Inl err \<Rightarrow>
                (st1\<lparr>error := ''Error submitting feedback. Please try again.'',
                     loading := False\<rparr>, [request])))"

subsection \<open>The polling loop between its suspension points\<close>

text \<open>
  \<open>summarizeFile\<close> is an \<^verbatim>\<open>async\<close> function: inside the loop it is suspended at its
  two \<^verbatim>\<open>await\<close>s, during the delay and during the status query, and between two
  suspensions it runs without interruption. A run of the loop is in one of three
  phases: suspended in the delay, suspended in the query, or past the loop.
\<close>

datatype phase = Delaying | Querying | Finished

text \<open>
  The variables of a run: the component state as the setter calls of the run leave
  it (React applies them to a mounted component and discards them after an
  unmount), \<open>summaryReady\<close>, \<open>attempts\<close> and the phase.
\<close>

record poll_run =
  run_state :: tool_state
  run_ready :: bool
  run_attempts :: nat
  run_phase :: phase

text \<open>
  What happens while the run is suspended: the timer of the delay fires, the status
  query is answered, or the caller does something (the user leaves the page, uses
  a control, presses a button).
\<close>

datatype signal = TimerFired | Answered "transport_error + status_response" | CallerEvent

text \<open>The two statements after the loop.\<close>

definition after_loop :: "tool_state \<Rightarrow> bool \<Rightarrow> tool_state" where
  "after_loop st summaryReady =
     (if \<not> summaryReady
      then st\<lparr>error := ''Summary generation is taking longer than expected. Please check back later.''\<rparr>
      else st)\<lparr>loading := False\<rparr>"

text \<open>
  The test of the \<^verbatim>\<open>while\<close>: the next iteration starts with its delay, or the
  statements after the loop run.
\<close>

definition loop_test :: "poll_run \<Rightarrow> poll_run \<times> event list" where
  "loop_test r =
     (if \<not> run_ready r \<and> run_attempts r < maxAttempts
      then (r\<lparr>run_phase := Delaying\<rparr>, [Delay 2000])
      else (r\<lparr>run_state := after_loop (run_state r) (run_ready r), run_phase := Finished\<rparr>, []))"

text \<open>The \<^verbatim>\<open>try\<close> and \<^verbatim>\<open>catch\<close> of the loop body on a status answer, and \<^verbatim>\<open>attempts++\<close>.\<close>

definition take_answer :: "string \<Rightarrow> poll_run \<Rightarrow> transport_error + status_response \<Rightarrow> poll_run" where
  "take_answer docId r answer =
     (case snd (service_getSummary docId answer) of
        Inr summaryResponse \<Rightarrow>
          if status summaryResponse = ''completed''
          then r\<lparr>run_state := (run_state r)\<lparr>summary := status_summary summaryResponse\<rparr>,
                 run_ready := True, run_attempts := run_attempts r + 1\<rparr>
          else r\<lparr>run_state := (run_state r)\<lparr>processingStatus :=
                     ''Processing document... ('' @ show_nat (run_attempts r + 1) @ ''/''
                       @ show_nat maxAttempts @ '')''\<rparr>,
                 run_attempts := run_attempts r + 1\<rparr>
      | Inl err \<Rightarrow> r\<lparr>run_attempts := run_attempts r + 1\<rparr>)"

text \<open>
  The code that runs when something happens. The timer resumes a run that is in
  its delay, which sends the status query; the answer resumes a run that is in its
  query. For an event of the caller there is no code: the component registers no
  cleanup, passes no abort signal to the requests and the loop tests no flag, so
  the run is as it was.
\<close>

definition poll_step :: "string \<Rightarrow> poll_run \<Rightarrow> signal \<Rightarrow> poll_run \<times> event list" where
  "poll_step docId r sig =
     (case sig of
        TimerFired \<Rightarrow>
          if run_phase r = Delaying
          then (r\<lparr>run_phase := Querying\<rparr>, [GetDocument docId])
          else (r, [])
      | Answered answer \<Rightarrow>
          if run_phase r = Querying then loop_test (take_answer docId r answer) else (r, [])
      | CallerEvent \<Rightarrow> (r, []))"

text \<open>A run under a sequence of signals, with the events it issues.\<close>

fun drive :: "string \<Rightarrow> poll_run \<Rightarrow> signal list \<Rightarrow> poll_run \<times> event list" where
  "drive docId r [] = (r, [])"
| "drive docId r (sig # sigs) =
     (let (r1, evs1) = poll_step docId r sig;
          (r2, evs2) = drive docId r1 sigs
      in (r2, evs1 @ evs2))"

text \<open>The loop is entered with \<open>summaryReady = false\<close> and \<open>attempts = 0\<close>.\<close>

definition start_polling :: "tool_state \<Rightarrow> poll_run \<times> event list" where
  "start_polling st =
     loop_test \<lparr>run_state = st, run_ready = False, run_attempts = 0, run_phase = Delaying\<rparr>"

text \<open>
  The signals of \<open>n\<close> iterations in which nothing but the loop's own timer and
  answers happens, from attempt \<open>k\<close> on.
\<close>

fun undisturbed :: "(nat \<Rightarrow> transport_error + status_response) \<Rightarrow> nat \<Rightarrow> nat \<Rightarrow> signal list" where
  "undisturbed answers k 0 = []"
| "undisturbed answers k (Suc n) =
     TimerFired # Answered (answers k) # undisturbed answers (Suc k) n"

text \<open>The component state when the upload has succeeded and the loop is entered.\<close>

definition polling_state :: "tool_state \<Rightarrow> upload_response \<Rightarrow> tool_state" where
  "polling_state st uploadResult =
     st\<lparr>loading := True, error := '''',
        documentId := upload_document_id uploadResult,
        processingStatus := ''Processing document...''\<rparr>"

subsection \<open>The buttons\<close>

text \<open>
  The \<^verbatim>\<open>disabled\<close> attributes of the three buttons that start a request, as the
  component renders them.
\<close>

definition summarizeText_disabled :: "tool_state \<Rightarrow> bool" where
  "summarizeText_disabled st = loading st"

definition summarizeFile_disabled :: "tool_state \<Rightarrow> bool" where
  "summarizeFile_disabled st = (loading st \<or> file_value st = None)"

definition submitFeedback_disabled :: "tool_state \<Rightarrow> bool" where
  "submitFeedback_disabled st = (loading st \<or> rating st = 0)"

section \<open>Reading a run\<close>

text \<open>
  A status answer that does not end the loop: the query failed, or the document is
  in a state other than \<^verbatim>\<open>completed\<close>.
\<close>

definition failed_or_pending :: "transport_error + status_response \<Rightarrow> bool" where
  "failed_or_pending answer =
     (case answer of Inl e \<Rightarrow> True | Inr r \<Rightarrow> status r \<noteq> ''completed'')"

text \<open>The status queries among the events of a run.\<close>

fun is_status_query :: "event \<Rightarrow> bool" where
  "is_status_query (GetDocument d) = True"
| "is_status_query e = False"

text \<open>The upload request that \<open>summarizeFile\<close> sends for the file \<open>f\<close> in state \<open>st\<close>.\<close>

definition upload_request :: "tool_state \<Rightarrow> js_file \<Rightarrow> event" where
  "upload_request st f =
     PostDocuments f (or_default (maxLength (summaryOptions st)) 150)
                     (or_default (minLength (summaryOptions st)) 40)"

section \<open>The words of a text, as the specification counts them\<close>

text \<open>
  The whitespace-separated tokens of a text: its maximal runs of characters that are
  not white space, in order. \<open>cur\<close> is the run being read (reversed). This is the
  reading of the claim about \<open>countUniqueWords\<close>, not a translation of the source.
\<close>

fun tokens_from :: "string \<Rightarrow> string \<Rightarrow> string list" where
  "tokens_from [] cur = (if cur = [] then [] else [rev cur])"
| "tokens_from (c # cs) cur =
     (if is_space c
      then (if cur = [] then tokens_from cs [] else rev cur # tokens_from cs [])
      else tokens_from cs (c # cur))"

definition tokens :: "string \<Rightarrow> string list" where
  "tokens s = tokens_from s []"

text \<open>The number of distinct tokens after lowercasing.\<close>

definition distinct_tokens_spec :: "string \<Rightarrow> nat" where
  "distinct_tokens_spec t = card (set (map toLowerCase (tokens t)))"

section \<open>The polling loop, one iteration at a time\<close>

lemma poll_loop_stop:
  "summaryReady \<or> maxAttempts \<le> attempts \<Longrightarrow>
   poll_loop answers docId st evs summaryReady attempts = (st, evs, summaryReady, attempts)"
  by (subst poll_loop.simps) auto

lemma poll_loop_error:
  "attempts < maxAttempts \<Longrightarrow> answers attempts = Inl e \<Longrightarrow>
   poll_loop answers docId st evs False attempts =
   poll_loop answers docId st (evs @ [Delay 2000, GetDocument docId]) False (attempts + 1)"
  by (subst poll_loop.simps) (simp add: service_getSummary_def)

lemma poll_loop_pending:
  "attempts < maxAttempts \<Longrightarrow> answers attempts = Inr r \<Longrightarrow> status r \<noteq> ''completed'' \<Longrightarrow>
   poll_loop answers docId st evs False attempts =
   poll_loop answers docId
     (st\<lparr>processingStatus := ''Processing document... ('' @ show_nat (attempts + 1) @ ''/''
                              @ show_nat maxAttempts @ '')''\<rparr>)
     (evs @ [Delay 2000, GetDocument docId]) False (attempts + 1)"
  by (subst poll_loop.simps) (simp add: service_getSummary_def)

lemma poll_loop_completed:
  "attempts < maxAttempts \<Longrightarrow> answers attempts = Inr r \<Longrightarrow> status r = ''completed'' \<Longrightarrow>
   poll_loop answers docId st evs False attempts =
   (st\<lparr>summary := status_summary r\<rparr>, evs @ [Delay 2000, GetDocument docId], True, attempts + 1)"
  by (subst poll_loop.simps) (simp add: service_getSummary_def poll_loop_stop)

lemma poll_loop_waiting:
  "attempts + n \<le> maxAttempts \<Longrightarrow>
   \<forall>k. attempts \<le> k \<and> k < attempts + n \<longrightarrow> failed_or_pending (answers k) \<Longrightarrow>
   \<exists>p. poll_loop answers docId st evs False attempts =
       poll_loop answers docId (st\<lparr>processingStatus := p\<rparr>)
         (evs @ concat (replicate n [Delay 2000, GetDocument docId])) False (attempts + n)"
proof (induction n arbitrary: st evs attempts)
  case 0
  have "st\<lparr>processingStatus := processingStatus st\<rparr> = st" by simp
  then show ?case by (metis add_0_right append_Nil2 concat.simps(1) replicate_0)
next
  case (Suc n)
  have lt: "attempts < maxAttempts" using Suc.prems(1) by simp
  have rest: "\<forall>k. attempts + 1 \<le> k \<and> k < (attempts + 1) + n \<longrightarrow> failed_or_pending (answers k)"
    using Suc.prems(2) by simp
  have bound: "(attempts + 1) + n \<le> maxAttempts" using Suc.prems(1) by simp
  have here: "failed_or_pending (answers attempts)" using Suc.prems(2) by simp
  obtain st1 where step:
    "poll_loop answers docId st evs False attempts =
     poll_loop answers docId st1 (evs @ [Delay 2000, GetDocument docId]) False (attempts + 1)"
    and frame: "\<exists>q. st1 = st\<lparr>processingStatus := q\<rparr>"
  proof (cases "answers attempts")
    case (Inl e)
    have "st = st\<lparr>processingStatus := processingStatus st\<rparr>" by simp
    then show ?thesis using that poll_loop_error [where answers = answers, OF lt Inl] by blast
  next
    case (Inr r)
    then have "status r \<noteq> ''completed''" using here by (simp add: failed_or_pending_def)
    then show ?thesis using that poll_loop_pending [where answers = answers, OF lt Inr] by blast
  qed
  from Suc.IH [OF bound rest, of st1 "evs @ [Delay 2000, GetDocument docId]"]
  obtain p where ih:
    "poll_loop answers docId st1 (evs @ [Delay 2000, GetDocument docId]) False (attempts + 1) =
     poll_loop answers docId (st1\<lparr>processingStatus := p\<rparr>)
       ((evs @ [Delay 2000, GetDocument docId]) @ concat (replicate n [Delay 2000, GetDocument docId]))
       False (attempts + 1 + n)" by blast
  from frame obtain q where "st1 = st\<lparr>processingStatus := q\<rparr>" by blast
  then have "st1\<lparr>processingStatus := p\<rparr> = st\<lparr>processingStatus := p\<rparr>" by simp
  with step ih show ?case by (auto simp: add.commute add.left_commute)
qed

lemma poll_loop_waiting_then_completed:
  assumes "n < maxAttempts"
    and "\<forall>k<n. failed_or_pending (answers k)"
    and "answers n = Inr r" and "status r = ''completed''"
  shows "\<exists>p. poll_loop answers docId st evs False 0 =
           (st\<lparr>processingStatus := p, summary := status_summary r\<rparr>,
            evs @ concat (replicate (Suc n) [Delay 2000, GetDocument docId]), True, Suc n)"
proof -
  have "0 + n \<le> maxAttempts" using assms(1) by simp
  moreover have "\<forall>k. 0 \<le> k \<and> k < 0 + n \<longrightarrow> failed_or_pending (answers k)"
    using assms(2) by simp
  ultimately obtain p where
    "poll_loop answers docId st evs False 0 =
     poll_loop answers docId (st\<lparr>processingStatus := p\<rparr>)
       (evs @ concat (replicate n [Delay 2000, GetDocument docId])) False (0 + n)"
    using poll_loop_waiting [of 0 n answers docId st evs] by blast
  moreover have
    "poll_loop answers docId (st\<lparr>processingStatus := p\<rparr>)
       (evs @ concat (replicate n [Delay 2000, GetDocument docId])) False n =
     (st\<lparr>processingStatus := p, summary := status_summary r\<rparr>,
      (evs @ concat (replicate n [Delay 2000, GetDocument docId])) @ [Delay 2000, GetDocument docId],
      True, n + 1)"
    using poll_loop_completed [where answers = answers, OF assms(1) assms(3) assms(4)] by simp
  moreover have
    "concat (replicate n [Delay 2000, GetDocument docId]) @ [Delay 2000, GetDocument docId] =
     concat (replicate (Suc n) [Delay 2000, GetDocument docId])"
    by (induction n) auto
  ultimately show ?thesis by auto
qed

lemma poll_loop_exhausted:
  assumes "\<forall>k<maxAttempts. failed_or_pending (answers k)"
  shows "\<exists>p. poll_loop answers docId st evs False 0 =
           (st\<lparr>processingStatus := p\<rparr>,
            evs @ concat (replicate maxAttempts [Delay 2000, GetDocument docId]),
            False, maxAttempts)"
proof -
  have "0 + maxAttempts \<le> maxAttempts" by simp
  moreover have "\<forall>k. 0 \<le> k \<and> k < 0 + maxAttempts \<longrightarrow> failed_or_pending (answers k)"
    using assms by simp
  ultimately obtain p where
    "poll_loop answers docId st evs False 0 =
     poll_loop answers docId (st\<lparr>processingStatus := p\<rparr>)
       (evs @ concat (replicate maxAttempts [Delay 2000, GetDocument docId])) False (0 + maxAttempts)"
    using poll_loop_waiting [of 0 maxAttempts answers docId st evs] by blast
  then show ?thesis by (auto simp: poll_loop_stop)
qed

lemma status_queries_replicate:
  "filter is_status_query (concat (replicate n [Delay 2000, GetDocument docId])) =
   replicate n (GetDocument docId)"
  by (induction n) auto

text \<open>
  The loop reads its local variables and the answers only: the events it issues do
  not depend on the component state it was started in, and nothing in it looks at
  what the caller does meanwhile.
\<close>

lemma poll_loop_events_state_independent:
  "fst (snd (poll_loop answers docId st evs False attempts)) =
   fst (snd (poll_loop answers docId st' evs False attempts))"
proof (induction "maxAttempts - attempts" arbitrary: st st' evs attempts)
  case 0
  then have "maxAttempts \<le> attempts" by simp
  then show ?case by (simp add: poll_loop_stop)
next
  case (Suc n)
  then have lt: "attempts < maxAttempts" and n: "n = maxAttempts - (attempts + 1)" by simp_all
  show ?case
  proof (cases "answers attempts")
    case (Inl e)
    show ?thesis
      unfolding poll_loop_error [where answers = answers, OF lt Inl]
      by (rule Suc.hyps(1) [OF n])
  next
    case (Inr r)
    show ?thesis
    proof (cases "status r = ''completed''")
      case True
      then show ?thesis
        by (simp add: poll_loop_completed [where answers = answers, OF lt Inr])
    next
      case False
      show ?thesis
        unfolding poll_loop_pending [where answers = answers, OF lt Inr False]
        by (rule Suc.hyps(1) [OF n])
    qed
  qed
qed

lemma summarizeFile_uploaded:
  assumes "file_value st = Some f"
  shows "summarizeFile st (Inr up) answers =
     (case poll_loop answers (upload_document_id up)
             (st\<lparr>loading := True, error := '''',
                  processingStatus := ''Uploading document...'',
                  documentId := upload_document_id up,
                  processingStatus := ''Processing document...''\<rparr>)
             [upload_request st f] False 0 of
        (st3, evs, summaryReady, attempts) \<Rightarrow>
          ((if \<not> summaryReady
            then st3\<lparr>error := ''Summary generation is taking longer than expected. Please check back later.''\<rparr>
            else st3)\<lparr>loading := False\<rparr>, evs))"
  using assms
  by (simp add: summarizeFile_def service_uploadDocument_def merged_options_def upload_request_def
        Let_def)

section \<open>Polling that never sees a completed document\<close>

text \<open>
  Claim C2. When every status answer of a run is a failure or a state other than
  completed, the loop sends exactly 30 status queries, each one after a delay of
  2000 ms, and nothing after the last one; the run ends with the message of the
  timeout as the error, not loading, the document id kept and no summary stored.
\<close>

theorem polling_times_out:
  assumes "file_value st = Some f"
    and "\<forall>k<maxAttempts. failed_or_pending (answers k)"
  shows "snd (summarizeFile st (Inr up) answers) =
           upload_request st f # concat (replicate 30 [Delay 2000, GetDocument (upload_document_id up)])
         \<and> filter is_status_query (snd (summarizeFile st (Inr up) answers)) =
             replicate 30 (GetDocument (upload_document_id up))
         \<and> error (fst (summarizeFile st (Inr up) answers)) =
             ''Summary generation is taking longer than expected. Please check back later.''
         \<and> \<not> loading (fst (summarizeFile st (Inr up) answers))
         \<and> documentId (fst (summarizeFile st (Inr up) answers)) = upload_document_id up
         \<and> summary (fst (summarizeFile st (Inr up) answers)) = summary st"
proof -
  obtain p where
    "poll_loop answers (upload_document_id up)
       (st\<lparr>loading := True, error := '''',
            processingStatus := ''Uploading document...'',
            documentId := upload_document_id up,
            processingStatus := ''Processing document...''\<rparr>)
       [upload_request st f] False 0 =
     (st\<lparr>loading := True, error := '''',
          processingStatus := ''Uploading document...'',
          documentId := upload_document_id up,
          processingStatus := ''Processing document...''\<rparr>\<lparr>processingStatus := p\<rparr>,
      [upload_request st f] @ concat (replicate maxAttempts [Delay 2000, GetDocument (upload_document_id up)]),
      False, maxAttempts)"
    using poll_loop_exhausted [OF assms(2)] by blast
  then have run: "summarizeFile st (Inr up) answers =
     (st\<lparr>loading := False,
          error := ''Summary generation is taking longer than expected. Please check back later.'',
          documentId := upload_document_id up, processingStatus := p\<rparr>,
      upload_request st f # concat (replicate maxAttempts [Delay 2000, GetDocument (upload_document_id up)]))"
    by (simp add: summarizeFile_uploaded [OF assms(1)])
  have q: "is_status_query (upload_request st f) = False" by (simp add: upload_request_def)
  show ?thesis
    unfolding run by (simp add: status_queries_replicate q maxAttempts_def del: replicate.simps)
qed

text \<open>
  Claim C2 at a run whose answers alternate between a network failure and the state
  \<^verbatim>\<open>processing\<close>.
\<close>

theorem polling_times_out_witness:
  "file_value (initial_state\<lparr>file_value := Some \<lparr>file_name = ''report.pdf'', file_size = 2048, file_type = ''application/pdf''\<rparr>\<rparr>)
     = Some \<lparr>file_name = ''report.pdf'', file_size = 2048, file_type = ''application/pdf''\<rparr>
   \<and> filter is_status_query
        (snd (summarizeFile
          (initial_state\<lparr>file_value := Some \<lparr>file_name = ''report.pdf'', file_size = 2048, file_type = ''application/pdf''\<rparr>\<rparr>)
          (Inr \<lparr>upload_document_id = ''d2''\<rparr>)
          (\<lambda>k. if even k then Inl NetworkError else Inr \<lparr>status = ''processing'', status_summary = None\<rparr>)))
       = replicate 30 (GetDocument ''d2'')
   \<and> error (fst (summarizeFile
          (initial_state\<lparr>file_value := Some \<lparr>file_name = ''report.pdf'', file_size = 2048, file_type = ''application/pdf''\<rparr>\<rparr>)
          (Inr \<lparr>upload_document_id = ''d2''\<rparr>)
          (\<lambda>k. if even k then Inl NetworkError else Inr \<lparr>status = ''processing'', status_summary = None\<rparr>)))
       = ''Summary generation is taking longer than expected. Please check back later.''"
proof -
  let ?f = "\<lparr>file_name = ''report.pdf'', file_size = 2048, file_type = ''application/pdf''\<rparr>"
  let ?answers = "\<lambda>k::nat. if even k then Inl NetworkError
                          else Inr \<lparr>status = ''processing'', status_summary = None\<rparr>"
  have h1: "file_value (initial_state\<lparr>file_value := Some ?f\<rparr>) = Some ?f" by simp
  have h2: "\<forall>k<maxAttempts. failed_or_pending (?answers k)"
    by (simp add: failed_or_pending_def)
  show ?thesis
    using h1 h2 polling_times_out [OF h1 h2, of "\<lparr>upload_document_id = ''d2''\<rparr>"]
    by (simp add: upload_request_def status_queries_replicate)
qed

section \<open>A failed upload\<close>

text \<open>
  Claim C7. When the upload of the selected file fails, \<open>summarizeFile\<close> stops
  there: the upload is the only event of the run, no status query is sent, the
  error is the message of the failed upload and the component is no longer loading.
\<close>

theorem upload_failure_is_terminal:
  assumes "file_value st = Some f"
  shows "summarizeFile st (Inl e) answers =
           (st\<lparr>loading := False,
               error := ''Error uploading or processing document. Please try again.'',
               processingStatus := ''Uploading document...''\<rparr>,
            [upload_request st f])
         \<and> filter is_status_query (snd (summarizeFile st (Inl e) answers)) = []"
  using assms
  by (simp add: summarizeFile_def service_uploadDocument_def merged_options_def
        upload_request_def Let_def)

text \<open>Claim C7 at an upload answered with status 500.\<close>

theorem upload_failure_is_terminal_witness:
  "file_value (initial_state\<lparr>file_value := Some \<lparr>file_name = ''report.pdf'', file_size = 2048, file_type = ''application/pdf''\<rparr>\<rparr>)
     = Some \<lparr>file_name = ''report.pdf'', file_size = 2048, file_type = ''application/pdf''\<rparr>
   \<and> snd (summarizeFile
        (initial_state\<lparr>file_value := Some \<lparr>file_name = ''report.pdf'', file_size = 2048, file_type = ''application/pdf''\<rparr>\<rparr>)
        (Inl (HttpError 500 ''Internal Server Error''))
        (\<lambda>k. Inr \<lparr>status = ''completed'', status_summary = Some ''Done.''\<rparr>))
     = [PostDocuments \<lparr>file_name = ''report.pdf'', file_size = 2048, file_type = ''application/pdf''\<rparr> 150 40]
   \<and> error (fst (summarizeFile
        (initial_state\<lparr>file_value := Some \<lparr>file_name = ''report.pdf'', file_size = 2048, file_type = ''application/pdf''\<rparr>\<rparr>)
        (Inl (HttpError 500 ''Internal Server Error''))
        (\<lambda>k. Inr \<lparr>status = ''completed'', status_summary = Some ''Done.''\<rparr>)))
     = ''Error uploading or processing document. Please try again.''"
proof -
  let ?f = "\<lparr>file_name = ''report.pdf'', file_size = 2048, file_type = ''application/pdf''\<rparr>"
  have h1: "file_value (initial_state\<lparr>file_value := Some ?f\<rparr>) = Some ?f" by simp
  show ?thesis
    using h1 upload_failure_is_terminal [OF h1, of "HttpError 500 ''Internal Server Error''"
        "\<lambda>k. Inr \<lparr>status = ''completed'', status_summary = Some ''Done.''\<rparr>"]
    by (simp add: upload_request_def initial_state_def or_default_def)
qed

section \<open>Polling that sees a completed document\<close>

lemma summarizeFile_completed_after:
  assumes "file_value st = Some f"
    and "n < maxAttempts"
    and "\<forall>k<n. failed_or_pending (answers k)"
    and "answers n = Inr r" and "status r = ''completed''"
  shows "\<exists>p. summarizeFile st (Inr up) answers =
           (st\<lparr>loading := False, error := '''', documentId := upload_document_id up,
               processingStatus := p, summary := status_summary r\<rparr>,
            upload_request st f #
              concat (replicate (Suc n) [Delay 2000, GetDocument (upload_document_id up)]))"
proof -
  obtain p where
    "poll_loop answers (upload_document_id up)
       (st\<lparr>loading := True, error := '''',
            processingStatus := ''Uploading document...'',
            documentId := upload_document_id up,
            processingStatus := ''Processing document...''\<rparr>)
       [upload_request st f] False 0 =
     (st\<lparr>loading := True, error := '''',
          processingStatus := ''Uploading document...'',
          documentId := upload_document_id up,
          processingStatus := ''Processing document...''\<rparr>
        \<lparr>processingStatus := p, summary := status_summary r\<rparr>,
      [upload_request st f] @
        concat (replicate (Suc n) [Delay 2000, GetDocument (upload_document_id up)]),
      True, Suc n)"
    using poll_loop_waiting_then_completed [OF assms(2-5)] by blast
  then have "summarizeFile st (Inr up) answers =
     (st\<lparr>loading := False, error := '''', documentId := upload_document_id up,
          processingStatus := p, summary := status_summary r\<rparr>,
      upload_request st f #
        concat (replicate (Suc n) [Delay 2000, GetDocument (upload_document_id up)]))"
    by (simp add: summarizeFile_uploaded [OF assms(1)])
  then show ?thesis by blast
qed

lemma status_queries_of_run:
  "filter is_status_query (upload_request st f # concat (replicate n [Delay 2000, GetDocument d])) =
   replicate n (GetDocument d)"
  by (simp add: upload_request_def status_queries_replicate)

text \<open>
  Claim C8. The upload returns the document id \<^verbatim>\<open>d2\<close>, the first two status
  answers say \<^verbatim>\<open>processing\<close> and the third says \<^verbatim>\<open>completed\<close> with the summary
  \<^verbatim>\<open>Done.\<close>: the run ends with that summary stored, no error, not loading, and
  exactly three status queries sent.
\<close>

theorem third_poll_completes:
  assumes "file_value st = Some f"
    and "answers 0 = Inr r0" and "status r0 = ''processing''"
    and "answers 1 = Inr r1" and "status r1 = ''processing''"
    and "answers 2 = Inr \<lparr>status = ''completed'', status_summary = Some ''Done.''\<rparr>"
  shows "summary (fst (summarizeFile st (Inr \<lparr>upload_document_id = ''d2''\<rparr>) answers)) = Some ''Done.''
         \<and> error (fst (summarizeFile st (Inr \<lparr>upload_document_id = ''d2''\<rparr>) answers)) = ''''
         \<and> \<not> loading (fst (summarizeFile st (Inr \<lparr>upload_document_id = ''d2''\<rparr>) answers))
         \<and> documentId (fst (summarizeFile st (Inr \<lparr>upload_document_id = ''d2''\<rparr>) answers)) = ''d2''
         \<and> filter is_status_query (snd (summarizeFile st (Inr \<lparr>upload_document_id = ''d2''\<rparr>) answers)) =
             [GetDocument ''d2'', GetDocument ''d2'', GetDocument ''d2'']"
proof -
  have two: "2 < maxAttempts" by (simp add: maxAttempts_def)
  have "\<forall>k<2. failed_or_pending (answers k)"
  proof (intro allI impI)
    fix k :: nat assume "k < 2"
    then have "k = 0 \<or> k = 1" by auto
    then show "failed_or_pending (answers k)"
      using assms(2-5) by (auto simp: failed_or_pending_def)
  qed
  from summarizeFile_completed_after [OF assms(1) two this assms(6), of "\<lparr>upload_document_id = ''d2''\<rparr>"]
  obtain p where run:
    "summarizeFile st (Inr \<lparr>upload_document_id = ''d2''\<rparr>) answers =
       (st\<lparr>loading := False, error := '''', documentId := ''d2'',
           processingStatus := p, summary := Some ''Done.''\<rparr>,
        upload_request st f # concat (replicate (Suc 2) [Delay 2000, GetDocument ''d2'']))"
    by auto
  have "filter is_status_query
          (upload_request st f # concat (replicate (Suc 2) [Delay 2000, GetDocument ''d2''])) =
        replicate (Suc 2) (GetDocument ''d2'')"
    by (rule status_queries_of_run)
  then show ?thesis
    unfolding run by (simp add: numeral_2_eq_2)
qed

text \<open>Claim C8 at a PDF selected in the initial state.\<close>

theorem third_poll_completes_witness:
  "file_value (initial_state\<lparr>file_value := Some \<lparr>file_name = ''report.pdf'', file_size = 2048, file_type = ''application/pdf''\<rparr>\<rparr>)
     = Some \<lparr>file_name = ''report.pdf'', file_size = 2048, file_type = ''application/pdf''\<rparr>
   \<and> status \<lparr>status = ''processing'', status_summary = None\<rparr> = ''processing''
   \<and> summary (fst (summarizeFile
        (initial_state\<lparr>file_value := Some \<lparr>file_name = ''report.pdf'', file_size = 2048, file_type = ''application/pdf''\<rparr>\<rparr>)
        (Inr \<lparr>upload_document_id = ''d2''\<rparr>)
        (\<lambda>k. if k < 2 then Inr \<lparr>status = ''processing'', status_summary = None\<rparr>
             else Inr \<lparr>status = ''completed'', status_summary = Some ''Done.''\<rparr>))) = Some ''Done.''
   \<and> filter is_status_query (snd (summarizeFile
        (initial_state\<lparr>file_value := Some \<lparr>file_name = ''report.pdf'', file_size = 2048, file_type = ''application/pdf''\<rparr>\<rparr>)
        (Inr \<lparr>upload_document_id = ''d2''\<rparr>)
        (\<lambda>k. if k < 2 then Inr \<lparr>status = ''processing'', status_summary = None\<rparr>
             else Inr \<lparr>status = ''completed'', status_summary = Some ''Done.''\<rparr>))) =
       [GetDocument ''d2'', GetDocument ''d2'', GetDocument ''d2'']"
proof -
  let ?f = "\<lparr>file_name = ''report.pdf'', file_size = 2048, file_type = ''application/pdf''\<rparr>"
  let ?answers = "\<lambda>k::nat. if k < 2 then Inr \<lparr>status = ''processing'', status_summary = None\<rparr>
             else Inr \<lparr>status = ''completed'', status_summary = Some ''Done.''\<rparr>"
  have h1: "file_value (initial_state\<lparr>file_value := Some ?f\<rparr>) = Some ?f" by simp
  have h2: "?answers 0 = Inr \<lparr>status = ''processing'', status_summary = None\<rparr>" by simp
  have h3: "status \<lparr>status = ''processing'', status_summary = None\<rparr> = ''processing''" by simp
  have h4: "?answers 1 = Inr \<lparr>status = ''processing'', status_summary = None\<rparr>" by simp
  have h6: "?answers 2 = Inr \<lparr>status = ''completed'', status_summary = Some ''Done.''\<rparr>" by simp
  show ?thesis
    using h1 h3 third_poll_completes [OF h1 h2 h3 h4 h3 h6] by simp
qed

text \<open>
  Claim C3. A status query that fails changes nothing but the events: the loop
  goes on with the next attempt, the state as it was. In particular, when the
  query of attempt \<open>k\<close> fails after \<open>k\<close> answers that were failures or states other
  than completed, and the next answer says \<^verbatim>\<open>completed\<close>, the run ends with the
  summary of that answer stored, no error, not loading, after \<open>k + 2\<close> status
  queries.
\<close>

theorem transient_poll_error_is_swallowed:
  "(attempts < maxAttempts \<and> answers attempts = Inl e \<longrightarrow>
      poll_loop answers docId st0 evs False attempts =
      poll_loop answers docId st0 (evs @ [Delay 2000, GetDocument docId]) False (attempts + 1))
   \<and> (file_value st = Some f \<and> k + 1 < maxAttempts
        \<and> (\<forall>j<k. failed_or_pending (answers j))
        \<and> answers k = Inl e \<and> answers (k + 1) = Inr r \<and> status r = ''completed'' \<longrightarrow>
        summary (fst (summarizeFile st (Inr up) answers)) = status_summary r
        \<and> error (fst (summarizeFile st (Inr up) answers)) = ''''
        \<and> \<not> loading (fst (summarizeFile st (Inr up) answers))
        \<and> filter is_status_query (snd (summarizeFile st (Inr up) answers)) =
            replicate (k + 2) (GetDocument (upload_document_id up)))"
proof (intro conjI impI)
  assume "attempts < maxAttempts \<and> answers attempts = Inl e"
  then show "poll_loop answers docId st0 evs False attempts =
      poll_loop answers docId st0 (evs @ [Delay 2000, GetDocument docId]) False (attempts + 1)"
    using poll_loop_error [where answers = answers] by blast
next
  assume a: "file_value st = Some f \<and> k + 1 < maxAttempts
        \<and> (\<forall>j<k. failed_or_pending (answers j))
        \<and> answers k = Inl e \<and> answers (k + 1) = Inr r \<and> status r = ''completed''"
  have "\<forall>j<k + 1. failed_or_pending (answers j)"
  proof (intro allI impI)
    fix j assume "j < k + 1"
    then have "j < k \<or> j = k" by auto
    then show "failed_or_pending (answers j)"
      using a by (auto simp: failed_or_pending_def)
  qed
  with a obtain p where run:
    "summarizeFile st (Inr up) answers =
       (st\<lparr>loading := False, error := '''', documentId := upload_document_id up,
           processingStatus := p, summary := status_summary r\<rparr>,
        upload_request st f #
          concat (replicate (Suc (k + 1)) [Delay 2000, GetDocument (upload_document_id up)]))"
    using summarizeFile_completed_after [of st f "k + 1" answers r up] by blast
  have q: "filter is_status_query
          (upload_request st f # concat (replicate (Suc (k + 1)) [Delay 2000, GetDocument (upload_document_id up)])) =
        replicate (Suc (k + 1)) (GetDocument (upload_document_id up))"
    by (rule status_queries_of_run)
  have s: "Suc (k + 1) = k + 2" by simp
  show "summary (fst (summarizeFile st (Inr up) answers)) = status_summary r"
    unfolding run by simp
  show "error (fst (summarizeFile st (Inr up) answers)) = ''''"
    unfolding run by simp
  show "\<not> loading (fst (summarizeFile st (Inr up) answers))"
    unfolding run by simp
  show "filter is_status_query (snd (summarizeFile st (Inr up) answers)) =
            replicate (k + 2) (GetDocument (upload_document_id up))"
    using q unfolding run by simp
qed

text \<open>Claim C3 at a run whose first status query fails and whose second one succeeds.\<close>

theorem transient_poll_error_is_swallowed_witness:
  "(0::nat) < maxAttempts
   \<and> (\<lambda>k::nat. if k = 0 then Inl NetworkError
                else Inr \<lparr>status = ''completed'', status_summary = Some ''Done.''\<rparr>) 0 = Inl NetworkError
   \<and> file_value (initial_state\<lparr>file_value := Some \<lparr>file_name = ''report.pdf'', file_size = 2048, file_type = ''application/pdf''\<rparr>\<rparr>)
       = Some \<lparr>file_name = ''report.pdf'', file_size = 2048, file_type = ''application/pdf''\<rparr>
   \<and> (0::nat) + 1 < maxAttempts
   \<and> status \<lparr>status = ''completed'', status_summary = Some ''Done.''\<rparr> = ''completed''
   \<and> poll_loop
        (\<lambda>k. if k = 0 then Inl NetworkError
             else Inr \<lparr>status = ''completed'', status_summary = Some ''Done.''\<rparr>)
        ''d2'' initial_state [] False 0 =
       poll_loop
        (\<lambda>k. if k = 0 then Inl NetworkError
             else Inr \<lparr>status = ''completed'', status_summary = Some ''Done.''\<rparr>)
        ''d2'' initial_state [Delay 2000, GetDocument ''d2''] False 1
   \<and> summary (fst (summarizeFile
        (initial_state\<lparr>file_value := Some \<lparr>file_name = ''report.pdf'', file_size = 2048, file_type = ''application/pdf''\<rparr>\<rparr>)
        (Inr \<lparr>upload_document_id = ''d2''\<rparr>)
        (\<lambda>k. if k = 0 then Inl NetworkError
             else Inr \<lparr>status = ''completed'', status_summary = Some ''Done.''\<rparr>))) = Some ''Done.''
   \<and> error (fst (summarizeFile
        (initial_state\<lparr>file_value := Some \<lparr>file_name = ''report.pdf'', file_size = 2048, file_type = ''application/pdf''\<rparr>\<rparr>)
        (Inr \<lparr>upload_document_id = ''d2''\<rparr>)
        (\<lambda>k. if k = 0 then Inl NetworkError
             else Inr \<lparr>status = ''completed'', status_summary = Some ''Done.''\<rparr>))) = ''''
   \<and> filter is_status_query (snd (summarizeFile
        (initial_state\<lparr>file_value := Some \<lparr>file_name = ''report.pdf'', file_size = 2048, file_type = ''application/pdf''\<rparr>\<rparr>)
        (Inr \<lparr>upload_document_id = ''d2''\<rparr>)
        (\<lambda>k. if k = 0 then Inl NetworkError
             else Inr \<lparr>status = ''completed'', status_summary = Some ''Done.''\<rparr>))) =
       [GetDocument ''d2'', GetDocument ''d2'']"
proof -
  let ?f = "\<lparr>file_name = ''report.pdf'', file_size = 2048, file_type = ''application/pdf''\<rparr>"
  let ?r = "\<lparr>status = ''completed'', status_summary = Some ''Done.''\<rparr>"
  let ?answers = "\<lambda>k::nat. if k = 0 then Inl NetworkError else Inr ?r"
  have h0: "(0::nat) < maxAttempts" "(0::nat) + 1 < maxAttempts" by (simp_all add: maxAttempts_def)
  have h1: "file_value (initial_state\<lparr>file_value := Some ?f\<rparr>) = Some ?f" by simp
  have h2: "\<forall>j<0::nat. failed_or_pending (?answers j)" by simp
  have h3: "?answers 0 = Inl NetworkError" "?answers (0 + 1) = Inr ?r" "status ?r = ''completed''"
    by simp_all
  show ?thesis
    using h0 h1 h2 h3
      transient_poll_error_is_swallowed [of 0 ?answers NetworkError "''d2''" initial_state "[]"
        "initial_state\<lparr>file_value := Some ?f\<rparr>" ?f 0 ?r "\<lparr>upload_document_id = ''d2''\<rparr>"]
    by (simp add: numeral_2_eq_2)
qed

section \<open>Caller events during polling\<close>

text \<open>
  Run without disturbance, the signals of the loop's own timer and answers give
  what \<open>summarizeFile\<close> returns: the same final state and the same events.
\<close>

lemma drive_finished:
  "run_phase r = Finished \<Longrightarrow> drive docId r sigs = (r, [])"
  by (induction sigs) (auto simp: poll_step_def split: signal.splits)

lemma poll_loop_unfold:
  "attempts < maxAttempts \<Longrightarrow>
   poll_loop answers docId st evs False attempts =
     (case answers attempts of
        Inr summaryResponse \<Rightarrow>
          if status summaryResponse = ''completed''
          then poll_loop answers docId (st\<lparr>summary := status_summary summaryResponse\<rparr>)
                 (evs @ [Delay 2000, GetDocument docId]) True (attempts + 1)
          else poll_loop answers docId
                 (st\<lparr>processingStatus :=
                      ''Processing document... ('' @ show_nat (attempts + 1) @ ''/''
                        @ show_nat maxAttempts @ '')''\<rparr>)
                 (evs @ [Delay 2000, GetDocument docId]) False (attempts + 1)
      | Inl err \<Rightarrow> poll_loop answers docId st (evs @ [Delay 2000, GetDocument docId]) False (attempts + 1))"
  by (subst poll_loop.simps) (simp add: service_getSummary_def split: sum.splits)

lemma drive_undisturbed:
  assumes "maxAttempts - run_attempts r0 \<le> n"
    and "poll_loop answers docId (run_state r0) evs (run_ready r0) (run_attempts r0)
           = (st', evs', rdy, att)"
    and "drive docId (fst (loop_test r0)) (undisturbed answers (run_attempts r0) n) = (rf, es)"
  shows "run_state rf = after_loop st' rdy \<and> evs' = evs @ snd (loop_test r0) @ es
         \<and> run_phase rf = Finished"
  using assms
proof (induction n arbitrary: r0 evs rf es)
  case 0
  then have stop: "run_ready r0 \<or> maxAttempts \<le> run_attempts r0" by simp
  then have "poll_loop answers docId (run_state r0) evs (run_ready r0) (run_attempts r0)
               = (run_state r0, evs, run_ready r0, run_attempts r0)"
    by (rule poll_loop_stop)
  with "0.prems"(2) have big: "st' = run_state r0" "evs' = evs" "rdy = run_ready r0" by simp_all
  have test: "loop_test r0 =
      (r0\<lparr>run_state := after_loop (run_state r0) (run_ready r0), run_phase := Finished\<rparr>, [])"
    using stop by (auto simp: loop_test_def)
  from "0.prems"(3) have "rf = fst (loop_test r0)" "es = []" by simp_all
  then show ?case by (simp add: test big)
next
  case (Suc n)
  show ?case
  proof (cases "run_ready r0 \<or> maxAttempts \<le> run_attempts r0")
    case True
    then have "poll_loop answers docId (run_state r0) evs (run_ready r0) (run_attempts r0)
               = (run_state r0, evs, run_ready r0, run_attempts r0)"
      by (rule poll_loop_stop)
    with Suc.prems(2) have big: "st' = run_state r0" "evs' = evs" "rdy = run_ready r0" by simp_all
    have test: "loop_test r0 =
        (r0\<lparr>run_state := after_loop (run_state r0) (run_ready r0), run_phase := Finished\<rparr>, [])"
      using True by (auto simp: loop_test_def)
    then have "run_phase (fst (loop_test r0)) = Finished" by simp
    then have "drive docId (fst (loop_test r0)) (undisturbed answers (run_attempts r0) (Suc n))
                 = (fst (loop_test r0), [])"
      by (rule drive_finished)
    with Suc.prems(3) have "rf = fst (loop_test r0)" "es = []" by simp_all
    then show ?thesis by (simp add: test big)
  next
    case False
    then have nr: "\<not> run_ready r0" and lt: "run_attempts r0 < maxAttempts" by simp_all
    have test: "loop_test r0 = (r0\<lparr>run_phase := Delaying\<rparr>, [Delay 2000])"
      using nr lt by (simp add: loop_test_def)
    define r1 where "r1 = take_answer docId (r0\<lparr>run_phase := Querying\<rparr>) (answers (run_attempts r0))"
    have att: "run_attempts r1 = Suc (run_attempts r0)"
      by (simp add: r1_def take_answer_def split: sum.splits)
    have small: "drive docId (fst (loop_test r0)) (undisturbed answers (run_attempts r0) (Suc n)) =
        (case drive docId (fst (loop_test r1)) (undisturbed answers (run_attempts r1) n) of
           (r2, evs2) \<Rightarrow> (r2, GetDocument docId # snd (loop_test r1) @ evs2))"
      by (simp add: test poll_step_def r1_def [symmetric] att split: prod.splits)
    obtain r2 evs2 where rest:
      "drive docId (fst (loop_test r1)) (undisturbed answers (run_attempts r1) n) = (r2, evs2)"
      by (cases "drive docId (fst (loop_test r1)) (undisturbed answers (run_attempts r1) n)")
    with small Suc.prems(3) have rf: "rf = r2" and es: "es = GetDocument docId # snd (loop_test r1) @ evs2"
      by simp_all
    have big: "poll_loop answers docId (run_state r0) evs (run_ready r0) (run_attempts r0) =
        poll_loop answers docId (run_state r1) (evs @ [Delay 2000, GetDocument docId])
          (run_ready r1) (run_attempts r1)"
      using nr
      by (simp add: poll_loop_unfold [OF lt] r1_def take_answer_def service_getSummary_def
            split: sum.splits)
    have bound: "maxAttempts - run_attempts r1 \<le> n" using Suc.prems(1) att by simp
    from Suc.IH [OF bound Suc.prems(2) [unfolded big] rest]
    show ?thesis by (simp add: rf es test)
  qed
qed

lemma summarizeFile_by_steps:
  assumes "file_value st = Some f"
    and "start_polling (polling_state st up) = (r, evs0)"
    and "drive (upload_document_id up) r (undisturbed answers 0 maxAttempts) = (rf, es)"
  shows "summarizeFile st (Inr up) answers = (run_state rf, upload_request st f # evs0 @ es)"
proof -
  let ?r0 = "\<lparr>run_state = polling_state st up, run_ready = False, run_attempts = 0,
               run_phase = Delaying\<rparr>"
  obtain st' evs' rdy att where big:
    "poll_loop answers (upload_document_id up) (polling_state st up) [upload_request st f] False 0
       = (st', evs', rdy, att)"
    by (metis prod_cases4)
  have test: "loop_test ?r0 = (r, evs0)" using assms(2) by (simp add: start_polling_def)
  have "run_state rf = after_loop st' rdy \<and> evs' = [upload_request st f] @ snd (loop_test ?r0) @ es
         \<and> run_phase rf = Finished"
    using big assms(3) by (intro drive_undisturbed [where answers = answers]) (simp_all add: test)
  then have fin: "run_state rf = after_loop st' rdy" and evs: "evs' = upload_request st f # evs0 @ es"
    by (simp_all add: test)
  have "summarizeFile st (Inr up) answers = (after_loop st' rdy, evs')"
    using big
    by (simp add: summarizeFile_uploaded [OF assms(1)] polling_state_def after_loop_def)
  then show ?thesis by (simp add: fin evs)
qed

text \<open>
  An event of the caller changes nothing in a run, and a run that began with
  \<open>loading\<close> true keeps it true until it is past the loop.
\<close>

lemma drive_ignores_caller_events:
  "drive docId r sigs = drive docId r (filter (\<lambda>sig. sig \<noteq> CallerEvent) sigs)"
  by (induction sigs arbitrary: r) (auto simp: poll_step_def split: prod.splits)

lemma loop_test_loading:
  "loading (run_state r) \<Longrightarrow>
   loading (run_state (fst (loop_test r))) \<or> run_phase (fst (loop_test r)) = Finished"
  by (simp add: loop_test_def)

lemma take_answer_loading:
  "loading (run_state (take_answer docId r answer)) = loading (run_state r)"
  by (simp add: take_answer_def split: sum.splits)

lemma poll_step_loading:
  "loading (run_state (fst (poll_step docId r sig))) \<or> run_phase (fst (poll_step docId r sig)) = Finished"
  if "loading (run_state r) \<or> run_phase r = Finished"
proof (cases sig)
  case TimerFired
  then show ?thesis using that by (auto simp: poll_step_def)
next
  case (Answered answer)
  show ?thesis
  proof (cases "run_phase r = Querying")
    case True
    then have "loading (run_state (take_answer docId r answer))"
      using that by (simp add: take_answer_loading)
    then show ?thesis
      using loop_test_loading [of "take_answer docId r answer"] True Answered
      by (simp add: poll_step_def)
  next
    case False
    then show ?thesis using that Answered by (simp add: poll_step_def)
  qed
next
  case CallerEvent
  then show ?thesis using that by (simp add: poll_step_def)
qed

lemma fst_drive_Cons:
  "fst (drive docId r (sig # sigs)) = fst (drive docId (fst (poll_step docId r sig)) sigs)"
  by (simp split: prod.splits)

lemma drive_loading:
  "loading (run_state r) \<or> run_phase r = Finished \<Longrightarrow>
   loading (run_state (fst (drive docId r sigs))) \<or> run_phase (fst (drive docId r sigs)) = Finished"
proof (induction sigs arbitrary: r)
  case Nil
  then show ?case by simp
next
  case (Cons sig sigs)
  from Cons.IH [OF poll_step_loading [OF Cons.prems, of docId sig]]
  show ?case by (simp only: fst_drive_Cons)
qed

lemma start_polling_loading:
  "loading (run_state (fst (start_polling (polling_state st up))))"
  by (simp add: start_polling_def loop_test_def polling_state_def maxAttempts_def)

lemma show_nat_1: "show_nat (Suc 0) = ''1''"
  by code_simp

lemma show_nat_30: "show_nat 30 = ''30''"
  by code_simp

text \<open>
  Claim C6 fails. The caller does something while the run is in its first delay;
  the timer fires, the status query is sent and answered with \<^verbatim>\<open>processing\<close>, the
  status line is updated, and after the next delay a second status query is sent.
\<close>

theorem polling_continues_after_caller_event:
  "drive ''d2''
     (fst (start_polling
        (polling_state
           (initial_state\<lparr>file_value := Some \<lparr>file_name = ''report.pdf'', file_size = 2048, file_type = ''application/pdf''\<rparr>\<rparr>)
           \<lparr>upload_document_id = ''d2''\<rparr>)))
     [CallerEvent, TimerFired,
      Answered (Inr \<lparr>status = ''processing'', status_summary = None\<rparr>), TimerFired]
   = (\<lparr>run_state =
         initial_state
           \<lparr>file_value := Some \<lparr>file_name = ''report.pdf'', file_size = 2048, file_type = ''application/pdf''\<rparr>,
            loading := True, documentId := ''d2'',
            processingStatus := ''Processing document... (1/30)''\<rparr>,
       run_ready = False, run_attempts = 1, run_phase = Querying\<rparr>,
      [GetDocument ''d2'', Delay 2000, GetDocument ''d2''])"
  by (simp add: start_polling_def polling_state_def loop_test_def poll_step_def take_answer_def
        service_getSummary_def maxAttempts_def show_nat_1 show_nat_30 initial_state_def)

lemma undisturbed_has_no_caller_event:
  "filter (\<lambda>sig. sig \<noteq> CallerEvent) (undisturbed answers k n) = undisturbed answers k n"
  by (induction n arbitrary: k) simp_all

lemma snd_drive_Cons:
  "snd (drive docId r (sig # sigs)) =
     snd (poll_step docId r sig) @ snd (drive docId (fst (poll_step docId r sig)) sigs)"
  by (simp split: prod.splits)

lemma drive_append:
  "fst (drive docId r (xs @ ys)) = fst (drive docId (fst (drive docId r xs)) ys)"
  "snd (drive docId r (xs @ ys)) =
     snd (drive docId r xs) @ snd (drive docId (fst (drive docId r xs)) ys)"
  by (induction xs arbitrary: r) (simp_all add: fst_drive_Cons snd_drive_Cons del: drive.simps(2))

lemma undisturbed_first:
  "0 < n \<Longrightarrow>
   undisturbed answers k n = TimerFired # Answered (answers k) # undisturbed answers (Suc k) (n - 1)"
  by (cases n) simp_all

lemma summarizeFile_steps:
  assumes "file_value st = Some f"
  shows "summarizeFile st (Inr up) answers =
     (run_state (fst (drive (upload_document_id up) (fst (start_polling (polling_state st up)))
                        (undisturbed answers 0 maxAttempts))),
      upload_request st f # snd (start_polling (polling_state st up))
        @ snd (drive (upload_document_id up) (fst (start_polling (polling_state st up)))
                 (undisturbed answers 0 maxAttempts)))"
  using assms by (intro summarizeFile_by_steps) simp_all

lemma drive_undisturbed_finished:
  "run_phase (fst (drive docId (fst (start_polling st)) (undisturbed answers 0 maxAttempts))) = Finished"
proof -
  let ?r0 = "\<lparr>run_state = st, run_ready = False, run_attempts = 0, run_phase = Delaying\<rparr>"
  obtain st' evs' rdy att where big:
    "poll_loop answers docId (run_state ?r0) [] (run_ready ?r0) (run_attempts ?r0) = (st', evs', rdy, att)"
    by (metis prod_cases4)
  obtain rf es where small:
    "drive docId (fst (loop_test ?r0)) (undisturbed answers (run_attempts ?r0) maxAttempts) = (rf, es)"
    by (cases "drive docId (fst (loop_test ?r0)) (undisturbed answers (run_attempts ?r0) maxAttempts)")
  have "maxAttempts - run_attempts ?r0 \<le> maxAttempts" by simp
  from drive_undisturbed [OF this big small] have "run_phase rf = Finished" by simp
  then show ?thesis using small by (simp add: start_polling_def)
qed

text \<open>
  Claim C6, amended. The polling loop has no cancellation. Under any sequence of
  signals, a run started after an upload does what it does when the events of the
  caller are taken out of the sequence. When what remains is a beginning of the
  loop's own timer and answers, the requests and delays of the run so far are a
  beginning of those of \<open>summarizeFile\<close>; and once the run is past the loop, on a
  completed answer or after the last attempt, its requests and the state its
  setter calls leave are those of \<open>summarizeFile\<close>. As long as the run is not past
  the loop, that state has \<open>loading\<close> true, with which the three buttons that
  start a request are rendered disabled. The state of a run is what the run has
  written through the setters; what a page shows of it once the component is
  unmounted is not part of the statement.
\<close>

theorem caller_events_do_not_cancel:
  "drive (upload_document_id up) (fst (start_polling (polling_state st up))) sigs =
     drive (upload_document_id up) (fst (start_polling (polling_state st up)))
       (filter (\<lambda>sig. sig \<noteq> CallerEvent) sigs)
   \<and> (file_value st = Some f
        \<and> prefix (filter (\<lambda>sig. sig \<noteq> CallerEvent) sigs) (undisturbed answers 0 maxAttempts) \<longrightarrow>
       prefix
         (upload_request st f # snd (start_polling (polling_state st up))
            @ snd (drive (upload_document_id up) (fst (start_polling (polling_state st up))) sigs))
         (snd (summarizeFile st (Inr up) answers)))
   \<and> (file_value st = Some f
        \<and> prefix (filter (\<lambda>sig. sig \<noteq> CallerEvent) sigs) (undisturbed answers 0 maxAttempts)
        \<and> run_phase (fst (drive (upload_document_id up) (fst (start_polling (polling_state st up))) sigs))
            = Finished \<longrightarrow>
       (run_state (fst (drive (upload_document_id up) (fst (start_polling (polling_state st up))) sigs)),
        upload_request st f # snd (start_polling (polling_state st up))
          @ snd (drive (upload_document_id up) (fst (start_polling (polling_state st up))) sigs))
       = summarizeFile st (Inr up) answers)
   \<and> (run_phase (fst (drive (upload_document_id up) (fst (start_polling (polling_state st up))) sigs))
         \<noteq> Finished \<longrightarrow>
       summarizeText_disabled
         (run_state (fst (drive (upload_document_id up) (fst (start_polling (polling_state st up))) sigs)))
       \<and> summarizeFile_disabled
         (run_state (fst (drive (upload_document_id up) (fst (start_polling (polling_state st up))) sigs)))
       \<and> submitFeedback_disabled
         (run_state (fst (drive (upload_document_id up) (fst (start_polling (polling_state st up))) sigs))))"
proof -
  let ?d = "upload_document_id up"
  let ?r = "fst (start_polling (polling_state st up))"
  let ?p = "filter (\<lambda>sig. sig \<noteq> CallerEvent) sigs"
  let ?full = "undisturbed answers 0 maxAttempts"
  have ignore: "drive ?d ?r sigs = drive ?d ?r ?p"
    by (rule drive_ignores_caller_events)
  have part: "prefix (upload_request st f # snd (start_polling (polling_state st up))
                 @ snd (drive ?d ?r sigs))
               (snd (summarizeFile st (Inr up) answers))"
    if f: "file_value st = Some f" and p: "prefix ?p ?full"
  proof -
    from p obtain q where q: "?full = ?p @ q" by (auto simp: prefix_def)
    have "snd (drive ?d ?r ?full) = snd (drive ?d ?r ?p) @ snd (drive ?d (fst (drive ?d ?r ?p)) q)"
      unfolding q by (rule drive_append(2))
    then show ?thesis
      unfolding summarizeFile_steps [OF f] ignore by simp
  qed
  have whole: "(run_state (fst (drive ?d ?r sigs)),
        upload_request st f # snd (start_polling (polling_state st up)) @ snd (drive ?d ?r sigs))
       = summarizeFile st (Inr up) answers"
    if f: "file_value st = Some f" and p: "prefix ?p ?full"
      and fin: "run_phase (fst (drive ?d ?r sigs)) = Finished"
  proof -
    from p obtain q where q: "?full = ?p @ q" by (auto simp: prefix_def)
    have fin': "run_phase (fst (drive ?d ?r ?p)) = Finished" using fin ignore by simp
    have rest: "drive ?d (fst (drive ?d ?r ?p)) q = (fst (drive ?d ?r ?p), [])"
      using fin' by (rule drive_finished)
    have "fst (drive ?d ?r ?full) = fst (drive ?d ?r ?p)"
      and "snd (drive ?d ?r ?full) = snd (drive ?d ?r ?p)"
      unfolding q drive_append rest by simp_all
    then show ?thesis
      unfolding summarizeFile_steps [OF f] ignore by simp
  qed
  have gate: "summarizeText_disabled (run_state (fst (drive ?d ?r sigs)))
       \<and> summarizeFile_disabled (run_state (fst (drive ?d ?r sigs)))
       \<and> submitFeedback_disabled (run_state (fst (drive ?d ?r sigs)))"
    if nf: "run_phase (fst (drive ?d ?r sigs)) \<noteq> Finished"
  proof -
    have "loading (run_state (fst (drive ?d ?r sigs))) \<or> run_phase (fst (drive ?d ?r sigs)) = Finished"
      using start_polling_loading by (intro drive_loading) simp
    with nf have "loading (run_state (fst (drive ?d ?r sigs)))" by simp
    then show ?thesis
      by (simp add: summarizeText_disabled_def summarizeFile_disabled_def submitFeedback_disabled_def)
  qed
  show ?thesis using ignore part whole gate by blast
qed

text \<open>
  Claim C6, amended, at three runs with caller events: one that ends on a completed
  first answer, one that is in its first status query, and one whose thirty answers
  all say \<^verbatim>\<open>processing\<close>.
\<close>

theorem caller_events_do_not_cancel_witness:
  "file_value
     (initial_state\<lparr>file_value := Some \<lparr>file_name = ''report.pdf'', file_size = 2048, file_type = ''application/pdf''\<rparr>\<rparr>)
     = Some \<lparr>file_name = ''report.pdf'', file_size = 2048, file_type = ''application/pdf''\<rparr>
   \<and> prefix
       (filter (\<lambda>sig. sig \<noteq> CallerEvent)
          [CallerEvent, TimerFired, CallerEvent,
           Answered (Inr \<lparr>status = ''completed'', status_summary = Some ''Done.''\<rparr>)])
       (undisturbed (\<lambda>k. Inr \<lparr>status = ''completed'', status_summary = Some ''Done.''\<rparr>) 0 maxAttempts)
   \<and> run_phase (fst (drive ''d2''
       (fst (start_polling (polling_state
          (initial_state\<lparr>file_value := Some \<lparr>file_name = ''report.pdf'', file_size = 2048, file_type = ''application/pdf''\<rparr>\<rparr>)
          \<lparr>upload_document_id = ''d2''\<rparr>)))
       [CallerEvent, TimerFired, CallerEvent,
        Answered (Inr \<lparr>status = ''completed'', status_summary = Some ''Done.''\<rparr>)])) = Finished
   \<and> (run_state (fst (drive ''d2''
         (fst (start_polling (polling_state
            (initial_state\<lparr>file_value := Some \<lparr>file_name = ''report.pdf'', file_size = 2048, file_type = ''application/pdf''\<rparr>\<rparr>)
            \<lparr>upload_document_id = ''d2''\<rparr>)))
         [CallerEvent, TimerFired, CallerEvent,
          Answered (Inr \<lparr>status = ''completed'', status_summary = Some ''Done.''\<rparr>)])),
       upload_request
         (initial_state\<lparr>file_value := Some \<lparr>file_name = ''report.pdf'', file_size = 2048, file_type = ''application/pdf''\<rparr>\<rparr>)
         \<lparr>file_name = ''report.pdf'', file_size = 2048, file_type = ''application/pdf''\<rparr>
       # snd (start_polling (polling_state
            (initial_state\<lparr>file_value := Some \<lparr>file_name = ''report.pdf'', file_size = 2048, file_type = ''application/pdf''\<rparr>\<rparr>)
            \<lparr>upload_document_id = ''d2''\<rparr>))
       @ snd (drive ''d2''
         (fst (start_polling (polling_state
            (initial_state\<lparr>file_value := Some \<lparr>file_name = ''report.pdf'', file_size = 2048, file_type = ''application/pdf''\<rparr>\<rparr>)
            \<lparr>upload_document_id = ''d2''\<rparr>)))
         [CallerEvent, TimerFired, CallerEvent,
          Answered (Inr \<lparr>status = ''completed'', status_summary = Some ''Done.''\<rparr>)]))
     = summarizeFile
         (initial_state\<lparr>file_value := Some \<lparr>file_name = ''report.pdf'', file_size = 2048, file_type = ''application/pdf''\<rparr>\<rparr>)
         (Inr \<lparr>upload_document_id = ''d2''\<rparr>)
         (\<lambda>k. Inr \<lparr>status = ''completed'', status_summary = Some ''Done.''\<rparr>)
   \<and> snd (summarizeFile
         (initial_state\<lparr>file_value := Some \<lparr>file_name = ''report.pdf'', file_size = 2048, file_type = ''application/pdf''\<rparr>\<rparr>)
         (Inr \<lparr>upload_document_id = ''d2''\<rparr>)
         (\<lambda>k. Inr \<lparr>status = ''completed'', status_summary = Some ''Done.''\<rparr>))
     = [PostDocuments \<lparr>file_name = ''report.pdf'', file_size = 2048, file_type = ''application/pdf''\<rparr> 150 40,
        Delay 2000, GetDocument ''d2'']
   \<and> run_phase (fst (drive ''d2''
       (fst (start_polling (polling_state
          (initial_state\<lparr>file_value := Some \<lparr>file_name = ''report.pdf'', file_size = 2048, file_type = ''application/pdf''\<rparr>\<rparr>)
          \<lparr>upload_document_id = ''d2''\<rparr>)))
       [TimerFired, CallerEvent])) \<noteq> Finished
   \<and> summarizeText_disabled (run_state (fst (drive ''d2''
       (fst (start_polling (polling_state
          (initial_state\<lparr>file_value := Some \<lparr>file_name = ''report.pdf'', file_size = 2048, file_type = ''application/pdf''\<rparr>\<rparr>)
          \<lparr>upload_document_id = ''d2''\<rparr>)))
       [TimerFired, CallerEvent])))
   \<and> summarizeFile_disabled (run_state (fst (drive ''d2''
       (fst (start_polling (polling_state
          (initial_state\<lparr>file_value := Some \<lparr>file_name = ''report.pdf'', file_size = 2048, file_type = ''application/pdf''\<rparr>\<rparr>)
          \<lparr>upload_document_id = ''d2''\<rparr>)))
       [TimerFired, CallerEvent])))
   \<and> submitFeedback_disabled (run_state (fst (drive ''d2''
       (fst (start_polling (polling_state
          (initial_state\<lparr>file_value := Some \<lparr>file_name = ''report.pdf'', file_size = 2048, file_type = ''application/pdf''\<rparr>\<rparr>)
          \<lparr>upload_document_id = ''d2''\<rparr>)))
       [TimerFired, CallerEvent])))
   \<and> run_phase (fst (drive ''d2''
       (fst (start_polling (polling_state
          (initial_state\<lparr>file_value := Some \<lparr>file_name = ''report.pdf'', file_size = 2048, file_type = ''application/pdf''\<rparr>\<rparr>)
          \<lparr>upload_document_id = ''d2''\<rparr>)))
       (CallerEvent # undisturbed (\<lambda>k. Inr \<lparr>status = ''processing'', status_summary = None\<rparr>) 0 maxAttempts)))
     = Finished
   \<and> (run_state (fst (drive ''d2''
         (fst (start_polling (polling_state
            (initial_state\<lparr>file_value := Some \<lparr>file_name = ''report.pdf'', file_size = 2048, file_type = ''application/pdf''\<rparr>\<rparr>)
            \<lparr>upload_document_id = ''d2''\<rparr>)))
         (CallerEvent # undisturbed (\<lambda>k. Inr \<lparr>status = ''processing'', status_summary = None\<rparr>) 0 maxAttempts))),
       upload_request
         (initial_state\<lparr>file_value := Some \<lparr>file_name = ''report.pdf'', file_size = 2048, file_type = ''application/pdf''\<rparr>\<rparr>)
         \<lparr>file_name = ''report.pdf'', file_size = 2048, file_type = ''application/pdf''\<rparr>
       # snd (start_polling (polling_state
            (initial_state\<lparr>file_value := Some \<lparr>file_name = ''report.pdf'', file_size = 2048, file_type = ''application/pdf''\<rparr>\<rparr>)
            \<lparr>upload_document_id = ''d2''\<rparr>))
       @ snd (drive ''d2''
         (fst (start_polling (polling_state
            (initial_state\<lparr>file_value := Some \<lparr>file_name = ''report.pdf'', file_size = 2048, file_type = ''application/pdf''\<rparr>\<rparr>)
            \<lparr>upload_document_id = ''d2''\<rparr>)))
         (CallerEvent # undisturbed (\<lambda>k. Inr \<lparr>status = ''processing'', status_summary = None\<rparr>) 0 maxAttempts)))
     = summarizeFile
         (initial_state\<lparr>file_value := Some \<lparr>file_name = ''report.pdf'', file_size = 2048, file_type = ''application/pdf''\<rparr>\<rparr>)
         (Inr \<lparr>upload_document_id = ''d2''\<rparr>)
         (\<lambda>k. Inr \<lparr>status = ''processing'', status_summary = None\<rparr>)"
proof -
  let ?f = "\<lparr>file_name = ''report.pdf'', file_size = 2048, file_type = ''application/pdf''\<rparr>"
  let ?st = "initial_state\<lparr>file_value := Some ?f\<rparr>"
  let ?up = "\<lparr>upload_document_id = ''d2''\<rparr>"
  let ?done = "\<lambda>k::nat. Inr \<lparr>status = ''completed'', status_summary = Some ''Done.''\<rparr>
                    :: transport_error + status_response"
  let ?busy = "\<lambda>k::nat. Inr \<lparr>status = ''processing'', status_summary = None\<rparr>
                    :: transport_error + status_response"
  let ?r = "fst (start_polling (polling_state ?st ?up))"
  let ?a = "[CallerEvent, TimerFired, CallerEvent, Answered (?done 0)]"
  let ?b = "[TimerFired, CallerEvent]"
  let ?c = "CallerEvent # undisturbed ?busy 0 maxAttempts"
  have id: "upload_document_id ?up = ''d2''" by simp
  have sel: "file_value ?st = Some ?f" by simp
  have "0 < maxAttempts" by (simp add: maxAttempts_def)
  then have a_prefix: "prefix (filter (\<lambda>sig. sig \<noteq> CallerEvent) ?a) (undisturbed ?done 0 maxAttempts)"
    by (simp add: undisturbed_first [of maxAttempts])
  have a_eval: "drive ''d2'' ?r ?a =
      (\<lparr>run_state = ?st\<lparr>loading := False, error := '''', documentId := ''d2'',
                         processingStatus := ''Processing document...'',
                         summary := Some ''Done.''\<rparr>,
        run_ready = True, run_attempts = 1, run_phase = Finished\<rparr>,
       [GetDocument ''d2''])"
    by (simp add: start_polling_def polling_state_def loop_test_def poll_step_def take_answer_def
          service_getSummary_def after_loop_def maxAttempts_def)
  then have a_fin: "run_phase (fst (drive ''d2'' ?r ?a)) = Finished" by simp
  from caller_events_do_not_cancel [of ?up ?st ?a ?f ?done] sel a_prefix a_fin
  have a_run: "(run_state (fst (drive ''d2'' ?r ?a)),
       upload_request ?st ?f # snd (start_polling (polling_state ?st ?up)) @ snd (drive ''d2'' ?r ?a))
     = summarizeFile ?st (Inr ?up) ?done"
    unfolding id by blast
  have a_events: "snd (summarizeFile ?st (Inr ?up) ?done) = [PostDocuments ?f 150 40, Delay 2000, GetDocument ''d2'']"
    unfolding a_run [symmetric] a_eval
    by (simp add: upload_request_def start_polling_def polling_state_def loop_test_def maxAttempts_def
          initial_state_def or_default_def)
  have b_open: "run_phase (fst (drive ''d2'' ?r ?b)) \<noteq> Finished"
    by (simp add: start_polling_def loop_test_def poll_step_def maxAttempts_def)
  from caller_events_do_not_cancel [of ?up ?st ?b ?f ?busy] b_open
  have b1: "summarizeText_disabled (run_state (fst (drive ''d2'' ?r ?b)))"
    and b2: "summarizeFile_disabled (run_state (fst (drive ''d2'' ?r ?b)))"
    and b3: "submitFeedback_disabled (run_state (fst (drive ''d2'' ?r ?b)))"
    unfolding id by blast+
  have c_prefix: "prefix (filter (\<lambda>sig. sig \<noteq> CallerEvent) ?c) (undisturbed ?busy 0 maxAttempts)"
    by (simp add: undisturbed_has_no_caller_event)
  have "drive ''d2'' ?r ?c = drive ''d2'' ?r (undisturbed ?busy 0 maxAttempts)"
    by (simp add: poll_step_def)
  then have c_fin: "run_phase (fst (drive ''d2'' ?r ?c)) = Finished"
    using drive_undisturbed_finished [of "''d2''" "polling_state ?st ?up" ?busy] by simp
  from caller_events_do_not_cancel [of ?up ?st ?c ?f ?busy] sel c_prefix c_fin
  have c_run: "(run_state (fst (drive ''d2'' ?r ?c)),
       upload_request ?st ?f # snd (start_polling (polling_state ?st ?up)) @ snd (drive ''d2'' ?r ?c))
     = summarizeFile ?st (Inr ?up) ?busy"
    unfolding id by blast
  show ?thesis
    using sel a_prefix a_fin a_run a_events b_open b1 b2 b3 c_fin c_run by blast
qed

section \<open>Feedback\<close>

text \<open>
  Claim C9. With a rating chosen, a feedback request that succeeds puts the rating
  and the comment back to their initial values (0 and the empty string); one that
  fails changes only the loading flag, the error and the status line, so the rating
  and the comment are the ones that were sent.
\<close>

theorem submitFeedback_resets_on_success_only:
  "(rating st \<noteq> 0 \<longrightarrow>
      rating (fst (submitFeedback st (Inr ()))) = rating initial_state
      \<and> feedback (fst (submitFeedback st (Inr ()))) = feedback initial_state
      \<and> rating (fst (submitFeedback st (Inr ()))) = 0
      \<and> feedback (fst (submitFeedback st (Inr ()))) = ''''
      \<and> error (fst (submitFeedback st (Inr ()))) = '''')
   \<and> (rating st \<noteq> 0 \<longrightarrow>
      fst (submitFeedback st (Inl e)) =
        st\<lparr>loading := False, error := ''Error submitting feedback. Please try again.'',
            processingStatus := ''Submitting feedback...''\<rparr>
      \<and> rating (fst (submitFeedback st (Inl e))) = rating st
      \<and> feedback (fst (submitFeedback st (Inl e))) = feedback st)"
  by (simp add: submitFeedback_def service_submitFeedback_def initial_state_def Let_def)

text \<open>Claim C9 at a rating of 4 with a comment.\<close>

theorem submitFeedback_resets_on_success_only_witness:
  "rating (initial_state\<lparr>rating := 4, feedback := ''Clear and short''\<rparr>) \<noteq> 0
   \<and> rating (fst (submitFeedback (initial_state\<lparr>rating := 4, feedback := ''Clear and short''\<rparr>) (Inr ()))) = 0
   \<and> feedback (fst (submitFeedback (initial_state\<lparr>rating := 4, feedback := ''Clear and short''\<rparr>) (Inr ()))) = ''''
   \<and> rating (fst (submitFeedback (initial_state\<lparr>rating := 4, feedback := ''Clear and short''\<rparr>) (Inl NetworkError))) = 4
   \<and> feedback (fst (submitFeedback (initial_state\<lparr>rating := 4, feedback := ''Clear and short''\<rparr>) (Inl NetworkError)))
       = ''Clear and short''"
proof -
  have h: "rating (initial_state\<lparr>rating := 4, feedback := ''Clear and short''\<rparr>) \<noteq> 0" by simp
  show ?thesis
    using h submitFeedback_resets_on_success_only
      [of "initial_state\<lparr>rating := 4, feedback := ''Clear and short''\<rparr>" NetworkError]
    by (simp add: initial_state_def)
qed

section \<open>Blank text\<close>

lemma trim_eq_Nil_iff: "trim s = [] \<longleftrightarrow> (\<forall>c\<in>set s. is_space c)"
proof (cases "dropWhile is_space s = []")
  case True
  have "trim s = []" unfolding trim_def True by simp
  moreover have "\<forall>c\<in>set s. is_space c" using True by (simp add: dropWhile_eq_Nil_conv)
  ultimately show ?thesis by simp
next
  case False
  then have "\<not> is_space (hd (dropWhile is_space s))" by (rule hd_dropWhile)
  moreover have "hd (dropWhile is_space s) \<in> set (dropWhile is_space s)"
    using False by simp
  ultimately have "\<not> (\<forall>c\<in>set (dropWhile is_space s). is_space c)" by blast
  moreover have "\<not> (\<forall>c\<in>set s. is_space c)"
    using False by (simp add: dropWhile_eq_Nil_conv)
  ultimately show ?thesis by (auto simp: trim_def dropWhile_eq_Nil_conv)
qed

text \<open>
  Claim C5. When the text is empty or holds only white space, \<open>summarizeText\<close>
  sets the error that asks for some text, changes nothing else and issues no event,
  whatever the transport would have answered.
\<close>

theorem blank_text_is_rejected:
  assumes "\<forall>c\<in>set (text_value st). is_space c"
  shows "summarizeText st answer = (st\<lparr>error := ''Please enter some text to summarize''\<rparr>, [])"
  using assms by (simp add: summarizeText_def trim_eq_Nil_iff)

text \<open>Claim C5 at a text of a space, a tab, a line feed and a space.\<close>

theorem blank_text_is_rejected_witness:
  "summarizeText (initial_state\<lparr>text_value := [CHR '' '', CHR 0x09, CHR 0x0A, CHR '' '']\<rparr>)
        (Inr \<lparr>resp_summary = ''Hi.'', resp_document_id = ''d1''\<rparr>)
      = (initial_state\<lparr>text_value := [CHR '' '', CHR 0x09, CHR 0x0A, CHR '' ''],
                        error := ''Please enter some text to summarize''\<rparr>, [])"
proof -
  have h: "\<forall>c\<in>set (text_value (initial_state\<lparr>text_value := [CHR '' '', CHR 0x09, CHR 0x0A, CHR '' '']\<rparr>)). is_space c"
    by (simp add: is_space_def)
  show ?thesis
    using h blank_text_is_rejected [OF h, of "Inr \<lparr>resp_summary = ''Hi.'', resp_document_id = ''d1''\<rparr>"]
    by simp
qed

section \<open>The length options\<close>

lemma parseInt_50: "parseInt ''50'' = Num 50"
  by code_simp

lemma parseInt_200: "parseInt ''200'' = Num 200"
  by code_simp

lemma trim_Hello: "trim ''Hello world'' = ''Hello world''"
  by code_simp

text \<open>
  Claim C1 fails. With the maximum length set to 50 and the minimum length set
  to 200, both values inside the range of their input, the text is submitted:
  the request carries \<^verbatim>\<open>max_length\<close> 50 and \<^verbatim>\<open>min_length\<close> 200, and its answer is
  stored as the summary.
\<close>

theorem inverted_lengths_are_submitted:
  "summarizeText
     (handleTextChange
        (handleOptionsChange (handleOptionsChange initial_state MaxLength ''50'') MinLength ''200'')
        ''Hello world'')
     (Inr \<lparr>resp_summary = ''Hi.'', resp_document_id = ''d1''\<rparr>)
   = (initial_state
        \<lparr>text_value := ''Hello world'',
         summaryOptions := \<lparr>maxLength = Num 50, minLength = Num 200\<rparr>,
         processingStatus := ''Generating summary...'',
         summary := Some ''Hi.'', documentId := ''d1''\<rparr>,
      [PostSummarize ''Hello world'' 50 200])"
  by (simp add: summarizeText_def handleTextChange_def handleOptionsChange_def
        parseInt_50 parseInt_200 trim_Hello initial_state_def service_summarizeText_def
        merged_options_def or_default_def)

lemma poll_loop_events_extend:
  "\<exists>more. fst (snd (poll_loop answers docId st evs False attempts)) = evs @ more"
proof (induction "maxAttempts - attempts" arbitrary: st evs attempts)
  case 0
  then have "maxAttempts \<le> attempts" by simp
  then show ?case by (simp add: poll_loop_stop)
next
  case (Suc n)
  then have lt: "attempts < maxAttempts" and n: "n = maxAttempts - (attempts + 1)" by simp_all
  show ?case
  proof (cases "answers attempts")
    case (Inl e)
    from Suc.hyps(1) [OF n, of st "evs @ [Delay 2000, GetDocument docId]"]
    show ?thesis
      by (auto simp: poll_loop_error [where answers = answers, OF lt Inl])
  next
    case (Inr r)
    show ?thesis
    proof (cases "status r = ''completed''")
      case True
      then show ?thesis
        by (simp add: poll_loop_completed [where answers = answers, OF lt Inr])
    next
      case False
      from Suc.hyps(1) [OF n, of _ "evs @ [Delay 2000, GetDocument docId]"]
      show ?thesis
        by (auto simp: poll_loop_pending [where answers = answers, OF lt Inr False])
    qed
  qed
qed

lemma summarizeFile_first_event:
  assumes "file_value st = Some f"
  shows "hd (snd (summarizeFile st upload_answer answers)) = upload_request st f"
proof (cases upload_answer)
  case (Inl e)
  then show ?thesis
    using assms
    by (simp add: summarizeFile_def service_uploadDocument_def merged_options_def
          upload_request_def Let_def)
next
  case (Inr up)
  obtain st3 evs ready n where run:
    "poll_loop answers (upload_document_id up)
             (st\<lparr>loading := True, error := '''',
                  processingStatus := ''Uploading document...'',
                  documentId := upload_document_id up,
                  processingStatus := ''Processing document...''\<rparr>)
             [upload_request st f] False 0 = (st3, evs, ready, n)"
    by (metis prod_cases4)
  then obtain more where "evs = [upload_request st f] @ more"
    using poll_loop_events_extend [of answers "upload_document_id up" _ "[upload_request st f]" 0]
    by (metis fst_conv snd_conv)
  then show ?thesis
    unfolding Inr summarizeFile_uploaded [OF assms] run by simp
qed

text \<open>
  Claim C1, amended. Neither submission compares the two lengths or rejects an
  options value: a text that is not blank is sent, and a selected file is uploaded
  first of all, with \<^verbatim>\<open>max_length\<close> the maximum length (150 when it is 0 or \<^verbatim>\<open>NaN\<close>)
  and \<^verbatim>\<open>min_length\<close> the minimum length (40 when it is 0 or \<^verbatim>\<open>NaN\<close>).
\<close>

theorem lengths_are_sent_unchecked:
  "(trim (text_value st) \<noteq> [] \<longrightarrow>
      snd (summarizeText st answer) =
        [PostSummarize (text_value st)
           (or_default (maxLength (summaryOptions st)) 150)
           (or_default (minLength (summaryOptions st)) 40)])
   \<and> (file_value st = Some f \<longrightarrow>
      hd (snd (summarizeFile st upload_answer answers)) =
        PostDocuments f
           (or_default (maxLength (summaryOptions st)) 150)
           (or_default (minLength (summaryOptions st)) 40))"
proof (intro conjI impI)
  assume "trim (text_value st) \<noteq> []"
  then show "snd (summarizeText st answer) =
        [PostSummarize (text_value st)
           (or_default (maxLength (summaryOptions st)) 150)
           (or_default (minLength (summaryOptions st)) 40)]"
    by (cases answer)
       (simp_all add: summarizeText_def service_summarizeText_def merged_options_def Let_def)
next
  assume "file_value st = Some f"
  then show "hd (snd (summarizeFile st upload_answer answers)) =
        PostDocuments f
           (or_default (maxLength (summaryOptions st)) 150)
           (or_default (minLength (summaryOptions st)) 40)"
    using summarizeFile_first_event [of st f upload_answer answers]
    by (simp add: upload_request_def)
qed

text \<open>Claim C1, amended, at a maximum length of 50 and a minimum length of 200.\<close>

theorem lengths_are_sent_unchecked_witness:
  "trim (text_value
      (initial_state\<lparr>text_value := ''Hello world'',
                     file_value := Some \<lparr>file_name = ''report.pdf'', file_size = 2048, file_type = ''application/pdf''\<rparr>,
                     summaryOptions := \<lparr>maxLength = Num 50, minLength = Num 200\<rparr>\<rparr>)) \<noteq> []
   \<and> file_value
      (initial_state\<lparr>text_value := ''Hello world'',
                     file_value := Some \<lparr>file_name = ''report.pdf'', file_size = 2048, file_type = ''application/pdf''\<rparr>,
                     summaryOptions := \<lparr>maxLength = Num 50, minLength = Num 200\<rparr>\<rparr>)
      = Some \<lparr>file_name = ''report.pdf'', file_size = 2048, file_type = ''application/pdf''\<rparr>
   \<and> snd (summarizeText
      (initial_state\<lparr>text_value := ''Hello world'',
                     file_value := Some \<lparr>file_name = ''report.pdf'', file_size = 2048, file_type = ''application/pdf''\<rparr>,
                     summaryOptions := \<lparr>maxLength = Num 50, minLength = Num 200\<rparr>\<rparr>)
      (Inl NetworkError))
      = [PostSummarize ''Hello world'' 50 200]
   \<and> hd (snd (summarizeFile
      (initial_state\<lparr>text_value := ''Hello world'',
                     file_value := Some \<lparr>file_name = ''report.pdf'', file_size = 2048, file_type = ''application/pdf''\<rparr>,
                     summaryOptions := \<lparr>maxLength = Num 50, minLength = Num 200\<rparr>\<rparr>)
      (Inr \<lparr>upload_document_id = ''d2''\<rparr>)
      (\<lambda>k. Inl NetworkError)))
      = PostDocuments \<lparr>file_name = ''report.pdf'', file_size = 2048, file_type = ''application/pdf''\<rparr> 50 200"
proof -
  let ?f = "\<lparr>file_name = ''report.pdf'', file_size = 2048, file_type = ''application/pdf''\<rparr>"
  let ?st = "initial_state\<lparr>text_value := ''Hello world'', file_value := Some ?f,
                     summaryOptions := \<lparr>maxLength = Num 50, minLength = Num 200\<rparr>\<rparr>"
  have h1: "trim (text_value ?st) \<noteq> []" by (simp add: trim_Hello)
  have h2: "file_value ?st = Some ?f" by simp
  show ?thesis
    using h1 h2 lengths_are_sent_unchecked [of ?st "Inl NetworkError" ?f
        "Inr \<lparr>upload_document_id = ''d2''\<rparr>" "\<lambda>k. Inl NetworkError"]
    by (simp add: or_default_def)
qed

section \<open>An oversized file of a type that is not accepted\<close>

lemma show_nat_10: "show_nat 10 = ''10''"
  by code_simp

lemma fileExtension_big_exe: "fileExtension ''big.exe'' = ''.exe''"
  by code_simp

lemma join_allowed:
  "join '', '' ALLOWED_EXTENSIONS = ''.txt, .pdf, .docx, .doc''"
  by code_simp

text \<open>
  Both validations reject a file that breaks a constraint. \<open>validateFiles\<close> returns
  \<^verbatim>\<open>false\<close> as soon as one file of the list is too large or of no accepted type;
  for a file that is too large its message is the one of the size, whatever the type.
  \<open>validateFile\<close> reports each violated constraint with a message of its own.
\<close>

lemma validate_one_keeps_invalid:
  "snd acc \<noteq> [] \<Longrightarrow> snd (validate_one accept maxSize acc f) \<noteq> []"
  by (cases acc) (simp add: validate_one_def Let_def)

lemma foldl_validate_one_keeps_invalid:
  "snd acc \<noteq> [] \<Longrightarrow> snd (foldl (validate_one accept maxSize) acc files) \<noteq> []"
  by (induction files arbitrary: acc) (simp_all add: validate_one_keeps_invalid)

lemma validate_one_invalid:
  "file_size f > maxSize * 1024 * 1024 \<or> \<not> list_ex (type_accepts f) (split_on CHR '','' accept) \<Longrightarrow>
   snd (validate_one accept maxSize acc f) \<noteq> []"
  by (cases acc) (auto simp: validate_one_def Let_def)

lemma foldl_validate_one_invalid:
  "f \<in> set files \<Longrightarrow>
   file_size f > maxSize * 1024 * 1024 \<or> \<not> list_ex (type_accepts f) (split_on CHR '','' accept) \<Longrightarrow>
   snd (foldl (validate_one accept maxSize) acc files) \<noteq> []"
proof (induction files arbitrary: acc)
  case Nil
  then show ?case by simp
next
  case (Cons g gs)
  show ?case
  proof (cases "f = g")
    case True
    then have "snd (validate_one accept maxSize acc g) \<noteq> []"
      using Cons.prems(2) validate_one_invalid by blast
    then show ?thesis by (simp add: foldl_validate_one_keeps_invalid)
  next
    case False
    then have "f \<in> set gs" using Cons.prems(1) by simp
    then show ?thesis using Cons.IH Cons.prems(2) by simp
  qed
qed

lemma validateFiles_rejects:
  assumes "f \<in> set files"
    and "file_size f > maxSize * 1024 * 1024
         \<or> \<not> list_ex (type_accepts f) (split_on CHR '','' accept)"
  shows "snd (validateFiles accept maxSize files) = None"
proof -
  obtain v i where acc: "foldl (validate_one accept maxSize) ([], []) files = (v, i)"
    by (cases "foldl (validate_one accept maxSize) ([], []) files")
  have "snd (foldl (validate_one accept maxSize) ([], []) files) \<noteq> []"
    using assms by (rule foldl_validate_one_invalid)
  then have "i \<noteq> []" by (simp add: acc)
  then show ?thesis by (simp add: validateFiles_def acc)
qed

lemma validateFiles_oversized:
  assumes "file_size f > maxSize * 1024 * 1024"
  shows "validateFiles accept maxSize [f] =
           (''Cannot upload: '' @ file_name f @ '' (exceeds '' @ show_nat maxSize @ ''MB size limit)'',
            None)"
  using assms by (simp add: validateFiles_def validate_one_def)

lemma validateFile_lists_every_violation:
  "fst (validateFile (Some f)) \<longleftrightarrow>
     \<not> file_size f > MAX_SIZE \<and> fileExtension (file_name f) \<in> set ALLOWED_EXTENSIONS"
  "file_size f > MAX_SIZE \<longleftrightarrow>
     ''File size exceeds 10MB limit'' \<in> set (snd (validateFile (Some f)))"
  "fileExtension (file_name f) \<notin> set ALLOWED_EXTENSIONS \<longleftrightarrow>
     ''File type not allowed. Allowed types: .txt, .pdf, .docx, .doc''
       \<in> set (snd (validateFile (Some f)))"
  by (auto simp: validateFile_def Let_def show_nat_10 join_allowed MAX_SIZE_def)

text \<open>
  Claim C4 fails in the upload component. A file of 15 MB named \<^verbatim>\<open>big.exe\<close> breaks
  the size limit and the accepted types; \<open>validateFiles\<close> rejects it with a message
  that names the size limit only, while \<open>validateFile\<close> lists both violations.
\<close>

theorem validateFiles_reports_first_violation_only:
  "validateFiles ''.txt,.pdf,.docx,.doc'' 10
     [\<lparr>file_name = ''big.exe'', file_size = 15728640, file_type = ''application/octet-stream''\<rparr>]
   = (''Cannot upload: big.exe (exceeds 10MB size limit)'', None)
   \<and> validateFile
       (Some \<lparr>file_name = ''big.exe'', file_size = 15728640, file_type = ''application/octet-stream''\<rparr>)
     = (False, [''File size exceeds 10MB limit'',
                ''File type not allowed. Allowed types: .txt, .pdf, .docx, .doc''])"
  by (simp add: validateFiles_def validate_one_def validateFile_def MAX_SIZE_def show_nat_10
        fileExtension_big_exe join_allowed)
     (simp add: ALLOWED_EXTENSIONS_def)

section \<open>Counting words\<close>

text \<open>
  On a text with at least one character that is not white space, the pieces that
  \<open>countUniqueWords\<close> counts are the tokens of the text, so its result is the number
  of distinct tokens after lowercasing. A falsy text gives 0. A text of white space
  only is trimmed to the empty string, which splits into one empty piece.
\<close>

lemma split_ws_from_nonempty_pieces:
  "(in_ws \<longrightarrow> cur = []) \<Longrightarrow>
   filter (\<lambda>w. w \<noteq> []) (split_ws_from s cur in_ws) = tokens_from s cur"
  by (induction s arbitrary: cur in_ws) auto

lemma split_ws_from_no_empty_piece:
  "(s = [] \<longrightarrow> cur \<noteq> []) \<Longrightarrow> (s \<noteq> [] \<longrightarrow> \<not> is_space (last s)) \<Longrightarrow>
   (cur = [] \<and> \<not> in_ws \<longrightarrow> s \<noteq> [] \<and> \<not> is_space (hd s)) \<Longrightarrow>
   [] \<notin> set (split_ws_from s cur in_ws)"
proof (induction s arbitrary: cur in_ws)
  case Nil
  then show ?case by simp
next
  case (Cons c cs)
  show ?case
  proof (cases "is_space c")
    case True
    then have cs: "cs \<noteq> []" using Cons.prems(2) by auto
    then have rest: "[] \<notin> set (split_ws_from cs cur' True)" for cur'
      using Cons.IH [of cur' True] Cons.prems(2) by (auto split: if_splits)
    show ?thesis
    proof (cases in_ws)
      case True
      with \<open>is_space c\<close> rest show ?thesis by simp
    next
      case False
      then have "cur \<noteq> []" using Cons.prems(3) \<open>is_space c\<close> by auto
      with False \<open>is_space c\<close> rest show ?thesis by simp
    qed
  next
    case False
    have "[] \<notin> set (split_ws_from cs (c # cur) False)"
      using Cons.IH [of "c # cur" False] Cons.prems(2) by (auto split: if_splits)
    with False show ?thesis by simp
  qed
qed

lemma last_dropWhile:
  "dropWhile P xs \<noteq> [] \<Longrightarrow> last (dropWhile P xs) = last xs"
  by (induction xs) (auto split: if_splits)

lemma trim_ends:
  assumes "trim t \<noteq> []"
  shows "\<not> is_space (hd (trim t))" and "\<not> is_space (last (trim t))"
proof -
  let ?d = "dropWhile is_space t"
  let ?e = "dropWhile is_space (rev ?d)"
  have e: "?e \<noteq> []" using assms by (simp add: trim_def)
  have d: "?d \<noteq> []"
  proof
    assume a: "?d = []"
    have "?e = []" unfolding a by simp
    with e show False by blast
  qed
  have "hd (trim t) = last ?e" using e by (simp add: trim_def hd_rev)
  also have "\<dots> = last (rev ?d)" using e by (rule last_dropWhile)
  also have "\<dots> = hd ?d" using d by (simp add: last_rev)
  finally show "\<not> is_space (hd (trim t))" using hd_dropWhile [OF d] by simp
  have "last (trim t) = hd ?e" using e by (simp add: trim_def last_rev)
  then show "\<not> is_space (last (trim t))" using hd_dropWhile [OF e] by simp
qed

lemma tokens_from_dropWhile:
  "tokens_from (dropWhile is_space s) [] = tokens_from s []"
  by (induction s) auto

lemma tokens_from_snoc_space:
  "is_space c \<Longrightarrow> tokens_from (s @ [c]) cur = tokens_from s cur"
  by (induction s arbitrary: cur) auto

lemma tokens_from_drop_trailing:
  "tokens_from (rev (dropWhile is_space (rev s))) cur = tokens_from s cur"
  by (induction s rule: rev_induct) (auto simp: tokens_from_snoc_space)

lemma tokens_trim: "tokens (trim t) = tokens t"
  by (simp add: tokens_def trim_def tokens_from_drop_trailing tokens_from_dropWhile)

lemma split_ws_trim:
  assumes "trim t \<noteq> []"
  shows "split_ws (trim t) = tokens t"
proof -
  have "[] \<notin> set (split_ws (trim t))"
    unfolding split_ws_def
    using assms trim_ends [OF assms] by (intro split_ws_from_no_empty_piece) auto
  then have "filter (\<lambda>w. w \<noteq> []) (split_ws (trim t)) = split_ws (trim t)"
    by (intro filter_True) auto
  moreover have "filter (\<lambda>w. w \<noteq> []) (split_ws (trim t)) = tokens (trim t)"
    by (simp add: split_ws_def tokens_def split_ws_from_nonempty_pieces)
  ultimately show ?thesis by (simp add: tokens_trim)
qed

lemma tokens_blank:
  "\<forall>c\<in>set t. is_space c \<Longrightarrow> tokens_from t [] = []"
  by (induction t) auto

lemma countUniqueWords_of_words:
  assumes "\<exists>c\<in>set t. \<not> is_space c"
  shows "countUniqueWords (Some t) = distinct_tokens_spec t"
proof -
  have ne: "trim t \<noteq> []" using assms by (simp add: trim_eq_Nil_iff)
  then have "t \<noteq> []" using assms by auto
  then show ?thesis
    by (simp add: countUniqueWords_def distinct_tokens_spec_def split_ws_trim [OF ne]
          length_remdups_card_conv)
qed

lemma countUniqueWords_of_white_space:
  assumes "t \<noteq> []" and "\<forall>c\<in>set t. is_space c"
  shows "countUniqueWords (Some t) = 1" and "distinct_tokens_spec t = 0"
proof -
  have "trim t = []" using assms(2) by (simp add: trim_eq_Nil_iff)
  then show "countUniqueWords (Some t) = 1"
    using assms(1) by (simp add: countUniqueWords_def split_ws_def)
  show "distinct_tokens_spec t = 0"
    using assms(2) by (simp add: distinct_tokens_spec_def tokens_def tokens_blank)
qed

lemma countUniqueWords_falsy:
  "countUniqueWords None = 0" "countUniqueWords (Some []) = 0"
  by (simp_all add: countUniqueWords_def)

section \<open>Counting the words of a blank text\<close>

text \<open>
  Claim C10 fails on a text of white space only: three spaces hold no token, and
  \<open>countUniqueWords\<close> returns 1.
\<close>

theorem countUniqueWords_blank:
  "countUniqueWords (Some ''   '') = 1 \<and> distinct_tokens_spec ''   '' = 0"
proof -
  have "(''   '' :: string) \<noteq> []" by simp
  moreover have "\<forall>c\<in>set ''   ''. is_space c" by (simp add: is_space_def)
  ultimately show ?thesis
    using countUniqueWords_of_white_space [of "''   ''"] by blast
qed

end
